theory Spec2Isabelle
  imports Complex_Main "HOL-Library.AList" "HOL-Library.Sublist"
begin

section \<open>The background monitor of QR\_alert (lib/backgroundMonitor.js)\<close>

text \<open>
  The class \<open>BackgroundMonitor\<close> polls simulated robot telemetry, keeps a short
  history per robot and part, and writes incident reports to a directory, suppressing
  repeated reports per robot and Japanese calendar date inside a five-minute window.

  Conventions of the embedding.
  \<^item> JavaScript numbers are modelled as \<open>real\<close>: the properties below compare the
    values the simulator has computed with the thresholds of the source, and never
    depend on how an addition was rounded.
  \<^item> An instant (\<open>new Date()\<close>) is an \<open>int\<close>: the milliseconds since the epoch
    that \<open>getTime()\<close> returns. The ISO string kept in \<open>lastReportTimes\<close> is
    rendered from it and parsed back to the same milliseconds, so the map is modelled
    with the instant as its value.
  \<^item> A plain object used as a dictionary is an association list in insertion order
    (the order of \<open>Object.keys\<close> for keys that are not integer-like, as the part
    ids and report keys are); \<open>map_of\<close> reads it, \<open>AList.update\<close> writes it.
    Keys are taken not to be names of properties that every object inherits.
  \<^item> What the environment decides (the random draws, the clock, whether a file
    operation succeeds) is an explicit argument of the function that consults it.
  \<^item> Japanese string literals are written as ASCII glosses in square brackets; the
    ASCII parts of a literal (step numbers, file name parts) are kept as they are.
\<close>

subsection \<open>Data\<close>

record metrics =
  temperature :: real
  vibration :: real
  humidity :: real
  operatingHours :: real
  lastUpdate :: int
  voltage :: real
  cpuLoad :: real
  abnormalNoise :: bool

text \<open>
  A part as the evaluator and the report generator see it. The simulator fills every
  field; the fallback of \<open>checkRobotStatus\<close> can build a part that has only
  \<open>id\<close>, \<open>name\<close> and \<open>status\<close> (\<open>readings = None\<close>).
\<close>

record part =
  id :: string
  name :: string
  status :: string
  readings :: "metrics option"

record robot_data =
  robotId :: string
  robotName :: string
  parts :: "part list"
  lastCheck :: int

record history_entry =
  h_temperature :: real
  h_vibration :: real
  h_humidity :: real
  h_operatingHours :: real
  h_timestamp :: int

type_synonym part_history = "(string \<times> history_entry list) list"

subsection \<open>The telemetry simulator\<close>

text \<open>
  The remainder operator \<open>%\<close> of JavaScript on numbers: the result has the sign of
  the dividend (the quotient is truncated towards zero).
\<close>

definition js_rem :: "real \<Rightarrow> real \<Rightarrow> real" where
  "js_rem x m = x - m * of_int (if 0 \<le> x / m then \<lfloor>x / m\<rfloor> else \<lceil>x / m\<rceil>)"

definition tempBase :: "real \<Rightarrow> real" where
  "tempBase seed = 35 + js_rem seed 20"

definition tempSpike :: "real \<Rightarrow> bool" where
  "tempSpike seed = (js_rem seed 10 = 0)"

definition temperature_of :: "real \<Rightarrow> real" where
  "temperature_of seed = tempBase seed + (if tempSpike seed then 20 else 0)"

definition vibration_of :: "real \<Rightarrow> real" where
  "vibration_of seed = 0.1 + js_rem seed 30 / 200"

definition vibSpike :: "real \<Rightarrow> bool" where
  "vibSpike seed = (js_rem seed 13 = 0)"

definition humidity_of :: "real \<Rightarrow> real" where
  "humidity_of seed = 40 + js_rem seed 30"

definition humidSpike :: "real \<Rightarrow> bool" where
  "humidSpike seed = (js_rem seed 17 = 0)"

definition operatingHours_of :: "real \<Rightarrow> real" where
  "operatingHours_of seed = 1 + js_rem seed 48"

definition longRun :: "real \<Rightarrow> bool" where
  "longRun seed = (operatingHours_of seed > 40)"

definition voltage_of :: "real \<Rightarrow> real" where
  "voltage_of seed = 24 - js_rem seed 8 / 10"

definition lowVoltage :: "real \<Rightarrow> bool" where
  "lowVoltage seed = (voltage_of seed < 22.5)"

definition cpuLoad_of :: "real \<Rightarrow> real" where
  "cpuLoad_of seed = 30 + js_rem seed 70"

definition highCpu :: "real \<Rightarrow> bool" where
  "highCpu seed = (cpuLoad_of seed > 85)"

definition abnormalNoise_of :: "real \<Rightarrow> bool" where
  "abnormalNoise_of seed = (js_rem seed 19 = 0)"

definition status_of :: "real \<Rightarrow> string" where
  "status_of seed =
     (if temperature_of seed > 60 \<or> vibration_of seed > 0.4 \<or> humidity_of seed > 80 \<or>
         longRun seed \<or> lowVoltage seed \<or> highCpu seed \<or> abnormalNoise_of seed \<or>
         vibSpike seed \<or> humidSpike seed \<or> tempSpike seed
      then ''critical''
      else if temperature_of seed > 50 \<or> vibration_of seed > 0.3 \<or> humidity_of seed > 70 \<or>
         operatingHours_of seed > 30 \<or> voltage_of seed < 23.0 \<or> cpuLoad_of seed > 75
      then ''warning''
      else ''normal'')"

text \<open>The roster of parts: id and name (the names are Japanese in the source).\<close>

definition robotParts :: "(string \<times> string) list" where
  "robotParts =
     [(''head'', ''[head]''), (''left_arm'', ''[left arm]''), (''right_arm'', ''[right arm]''),
      (''torso'', ''[torso]''), (''left_leg'', ''[left leg]''), (''right_leg'', ''[right leg]''),
      (''base'', ''[base]'')]"

text \<open>
  One element of \<open>robotParts.map\<close>: \<open>seed\<close> is the value of
  \<open>Math.random() * 1000\<close> drawn for the part, \<open>stamp\<close> the instant read for
  \<open>lastUpdate\<close>.
\<close>

definition simulatePart :: "string \<times> string \<Rightarrow> real \<Rightarrow> int \<Rightarrow> part" where
  "simulatePart rp seed stamp =
     \<lparr>id = fst rp, name = snd rp, status = status_of seed,
      readings = Some \<lparr>temperature = temperature_of seed, vibration = vibration_of seed,
        humidity = humidity_of seed, operatingHours = operatingHours_of seed,
        lastUpdate = stamp, voltage = voltage_of seed, cpuLoad = cpuLoad_of seed,
        abnormalNoise = abnormalNoise_of seed\<rparr>\<rparr>"

text \<open>What one call of \<open>getRobotData\<close> reads from its environment.\<close>

record sim_env =
  seedAt :: "nat \<Rightarrow> real"
  stampAt :: "nat \<Rightarrow> int"
  checkStamp :: int

definition simulateParts :: "sim_env \<Rightarrow> part list" where
  "simulateParts e =
     map (\<lambda>(part, index). simulatePart part (seedAt e index) (stampAt e index))
       (zip robotParts [0 ..< length robotParts])"

subsection \<open>The monitor and its environment\<close>

text \<open>One value per \<open>console.log\<close> or \<open>console.error\<close> call of the source.\<close>

datatype console_event =
    MonitoringStarted
  | CleanupEntryError string
  | CleanupDone
  | CleanupFailed
  | MonitoringStopped
  | CheckSummary string nat nat
  | CriticalDetected string
  | AnomalyDetected string
  | FallbackForced
  | DataError string
  | CriticalReportStart string nat
  | EmergencyReportStart string nat
  | WriteSucceeded string
  | FsUnavailable
  | WriteError
  | ReportDone string
  | LogWriteError

text \<open>
  The lines of a report that depend only on the severity, the robot, the instant and
  the number of parts. The header drawn at random, the blocks with the formatted
  readings of each part and the texts of the analysis agent are not part of the model.
\<close>

record report_content =
  rc_banner :: "string list"
  rc_robotId :: string
  rc_robotName :: string
  rc_isoTime :: string
  rc_level :: string
  rc_partCount :: nat
  rc_procedureTitle :: string
  rc_procedure :: "string list"
  rc_closing :: string

datatype file_body = ReportBody report_content | LogBody "string list" | OtherBody

text \<open>
  The fields of the monitor object (\<open>isRunning\<close>, \<open>monitoringInterval\<close>,
  \<open>lastReportTimes\<close>, \<open>historyBuffer\<close>) and the part of the process around it that
  its methods change: whether the module got \<open>fs\<close>, the entries of the reports
  directory, the timers that are set, and the console. The reports directory is taken
  to exist, as the constructor leaves it. The module loads \<open>fs\<close> and \<open>path\<close>
  together and the constructor calls \<open>path.join\<close>, so a monitor that was constructed
  has \<open>fs\<close>; the field is there for the branches of the source that test it.
\<close>

record world =
  isRunning :: bool
  monitoringInterval :: "nat option"
  lastReportTimes :: "(string \<times> int) list"
  historyBuffer :: "(string \<times> part_history) list"
  fs :: bool
  reportsDir :: "(string \<times> file_body) list"
  timers :: "nat list"
  console :: "console_event list"

definition say :: "console_event \<Rightarrow> world \<Rightarrow> world" where
  "say ev w = w\<lparr>console := console w @ [ev]\<rparr>"

text \<open>The state the constructor leaves, given the directory it found or made.\<close>

definition constructed :: "bool \<Rightarrow> (string \<times> file_body) list \<Rightarrow> world" where
  "constructed hasFs dir =
     \<lparr>isRunning = False, monitoringInterval = None, lastReportTimes = [],
      historyBuffer = [], fs = hasFs, reportsDir = dir, timers = [], console = []\<rparr>"

subsection \<open>The history buffer\<close>

text \<open>\<open>xs.slice(-k)\<close>: the last \<open>k\<close> elements, or all of them when there are fewer.\<close>

definition slice_last :: "nat \<Rightarrow> 'a list \<Rightarrow> 'a list" where
  "slice_last k xs = drop (length xs - k) xs"

definition historyEntry :: "metrics \<Rightarrow> history_entry" where
  "historyEntry m =
     \<lparr>h_temperature = temperature m, h_vibration = vibration m, h_humidity = humidity m,
      h_operatingHours = operatingHours m, h_timestamp = lastUpdate m\<rparr>"

text \<open>
  The body of \<open>parts.forEach\<close> in \<open>getRobotData\<close>, on the history of one robot:
  create the sequence of the part when it is missing, push, keep the last ten.
\<close>

definition pushHistory :: "string \<Rightarrow> history_entry \<Rightarrow> part_history \<Rightarrow> part_history" where
  "pushHistory pid entry h =
     (let pushed = (case map_of h pid of None \<Rightarrow> [] | Some es \<Rightarrow> es) @ [entry]
      in AList.update pid (if length pushed > 10 then slice_last 10 pushed else pushed) h)"

text \<open>Every part the simulator returns has readings; the other case is never taken.\<close>

definition recordPart :: "part \<Rightarrow> part_history \<Rightarrow> part_history" where
  "recordPart p h =
     (case readings p of None \<Rightarrow> h | Some m \<Rightarrow> pushHistory (id p) (historyEntry m) h)"

definition getRobotData :: "world \<Rightarrow> sim_env \<Rightarrow> string \<Rightarrow> robot_data \<times> world" where
  "getRobotData w e rid =
     (let ps = simulateParts e;
          h0 = (case map_of (historyBuffer w) rid of None \<Rightarrow> [] | Some h \<Rightarrow> h);
          h1 = fold recordPart ps h0
      in (\<lparr>robotId = rid, robotName = ''Robot '' @ rid, parts = ps, lastCheck = checkStamp e\<rparr>,
          w\<lparr>historyBuffer := AList.update rid h1 (historyBuffer w)\<rparr>))"

text \<open>\<open>this.historyBuffer?.[robotId]?.[partId] || []\<close>\<close>

definition historyOf :: "world \<Rightarrow> string \<Rightarrow> string \<Rightarrow> history_entry list" where
  "historyOf w rid pid =
     (case map_of (historyBuffer w) rid of None \<Rightarrow> []
      | Some h \<Rightarrow> (case map_of h pid of None \<Rightarrow> [] | Some es \<Rightarrow> es))"

text \<open>A sequence of calls of \<open>getRobotData\<close>, each with its environment and robot id.\<close>

fun getRobotData_calls :: "world \<Rightarrow> (sim_env \<times> string) list \<Rightarrow> world" where
  "getRobotData_calls w [] = w"
| "getRobotData_calls w ((e, rid) # cs) = getRobotData_calls (snd (getRobotData w e rid)) cs"

text \<open>
  The readings those calls produced for one robot and part, oldest first: what has been
  appended to the key so far.
\<close>

definition entriesIn :: "string \<Rightarrow> part list \<Rightarrow> history_entry list" where
  "entriesIn pid ps =
     concat (map (\<lambda>p. case readings p of None \<Rightarrow> [] | Some m \<Rightarrow> [historyEntry m])
       (filter (\<lambda>p. id p = pid) ps))"

fun appendedFor :: "string \<Rightarrow> string \<Rightarrow> (sim_env \<times> string) list \<Rightarrow> history_entry list" where
  "appendedFor rid pid [] = []"
| "appendedFor rid pid ((e, r) # cs) =
     (if r = rid then entriesIn pid (simulateParts e) else []) @ appendedFor rid pid cs"

subsection \<open>Instants as text\<close>

text \<open>
  The built-in conversions of the engine, for instants of the years 1970 to 9999:
  \<open>Date.prototype.toISOString\<close> and the \<open>en-CA\<close> date format in the time zone
  \<open>Asia/Tokyo\<close>, which is nine hours ahead of UTC all year.
\<close>

definition digit :: "nat \<Rightarrow> char" where
  "digit n = ''0123456789'' ! (n mod 10)"

fun dec :: "nat \<Rightarrow> string" where
  "dec n = (if n < 10 then [digit n] else dec (n div 10) @ [digit n])"

declare dec.simps [simp del]

definition pad2 :: "int \<Rightarrow> string" where
  "pad2 n = [digit (nat (n div 10)), digit (nat n)]"

definition pad3 :: "int \<Rightarrow> string" where
  "pad3 n = [digit (nat (n div 100)), digit (nat (n div 10)), digit (nat n)]"

definition pad4 :: "int \<Rightarrow> string" where
  "pad4 n = [digit (nat (n div 1000)), digit (nat (n div 100)), digit (nat (n div 10)), digit (nat n)]"

text \<open>
  Year, month and day of a day number (days since 1970-01-01) in the Gregorian calendar,
  by way of the 400-year era and the day of the year that starts on 1 March.
\<close>

definition eraOf :: "int \<Rightarrow> int" where
  "eraOf days = (days + 719468) div 146097"

definition dayOfEra :: "int \<Rightarrow> int" where
  "dayOfEra days = (days + 719468) mod 146097"

definition yearOfEra :: "int \<Rightarrow> int" where
  "yearOfEra doe = (doe - doe div 1460 + doe div 36524 - doe div 146096) div 365"

definition dayOfYear :: "int \<Rightarrow> int" where
  "dayOfYear doe = doe - (365 * yearOfEra doe + yearOfEra doe div 4 - yearOfEra doe div 100)"

definition monthIndex :: "int \<Rightarrow> int" where
  "monthIndex doy = (5 * doy + 2) div 153"

definition dayOf :: "int \<Rightarrow> int" where
  "dayOf days = dayOfYear (dayOfEra days) - (153 * monthIndex (dayOfYear (dayOfEra days)) + 2) div 5 + 1"

definition monthOf :: "int \<Rightarrow> int" where
  "monthOf days =
     (if monthIndex (dayOfYear (dayOfEra days)) < 10 then monthIndex (dayOfYear (dayOfEra days)) + 3
      else monthIndex (dayOfYear (dayOfEra days)) - 9)"

definition yearOf :: "int \<Rightarrow> int" where
  "yearOf days =
     yearOfEra (dayOfEra days) + eraOf days * 400 + (if monthOf days \<le> 2 then 1 else 0)"

definition dateString :: "int \<Rightarrow> string" where
  "dateString t =
     pad4 (yearOf (t div 86400000)) @ ''-'' @ pad2 (monthOf (t div 86400000)) @ ''-'' @
     pad2 (dayOf (t div 86400000))"

definition toISOString :: "int \<Rightarrow> string" where
  "toISOString t =
     dateString t @ ''T'' @ pad2 (t mod 86400000 div 3600000) @ '':'' @
     pad2 (t mod 3600000 div 60000) @ '':'' @ pad2 (t mod 60000 div 1000) @ ''.'' @
     pad3 (t mod 1000) @ ''Z''"

definition jpDateKey :: "int \<Rightarrow> string" where
  "jpDateKey t = dateString (t + 32400000)"

definition reportKey :: "string \<Rightarrow> int \<Rightarrow> string" where
  "reportKey rid t = rid @ ''_'' @ jpDateKey t"

subsection \<open>Report generation\<close>

definition actionProcedure :: "bool \<Rightarrow> string list" where
  "actionProcedure isCritical =
     (if isCritical then
        [''1. [perform the emergency stop of the robot at once]'',
         ''2. [call the factory manager urgently]'',
         ''3. [evacuate everyone from the safety area]'',
         ''4. [request an urgent response of the maintenance team]'',
         ''5. [carry out a detailed inspection and repair]'',
         ''6. [complete a full safety check before restarting]'']
      else
        [''1. [stop the operation of the robot at once]'',
         ''2. [carry out a safety check]'',
         ''3. [contact the maintenance team]'',
         ''4. [carry out a detailed inspection]'',
         ''5. [complete the safety check before restarting]''])"

text \<open>
  \<open>generateReportContent\<close>. It formats \<open>part.temperature\<close> and
  \<open>part.vibration\<close> of every part with \<open>toFixed\<close>, which throws a
  \<open>TypeError\<close> for a part without readings: the result is then \<open>None\<close>. The
  analysis agent is taken to return an analysis for every part.
\<close>

definition generateReportContent ::
    "robot_data \<Rightarrow> part list \<Rightarrow> int \<Rightarrow> bool \<Rightarrow> report_content option" where
  "generateReportContent robotData criticalParts timestamp isCritical =
     (if list_ex (\<lambda>p. readings p = None) criticalParts then None
      else Some
        \<lparr>rc_banner = (if isCritical then [''[!]  IMMEDIATE ACTION REQUIRED [!]''] else []),
         rc_robotId = robotId robotData,
         rc_robotName = robotName robotData,
         rc_isoTime = toISOString timestamp,
         rc_level = (if isCritical then ''CRITICAL'' else ''warning''),
         rc_partCount = length criticalParts,
         rc_procedureTitle =
           (if isCritical then ''[!] CRITICAL [response procedure]'' else ''[!] [recommended response]''),
         rc_procedure = actionProcedure isCritical,
         rc_closing = (if isCritical then ''End of CRITICAL Report'' else ''End of Emergency Report'')\<rparr>)"

text \<open>What one call of \<open>generateEmergencyReport\<close> reads from its environment.\<close>

record report_env =
  now :: int
  writeOk :: bool
  logNow :: int
  logOk :: bool

text \<open>
  \<open>fs.appendFileSync\<close> on the log file of the reports directory; a log file that
  exists is a \<open>LogBody\<close>.
\<close>

definition appendLine :: "string \<Rightarrow> (string \<times> file_body) list \<Rightarrow> (string \<times> file_body) list" where
  "appendLine line dir =
     AList.update ''system_monitor.log''
       (case map_of dir ''system_monitor.log'' of
          Some (LogBody ls) \<Rightarrow> LogBody (ls @ [line])
        | _ \<Rightarrow> LogBody [line]) dir"

definition logToSystemLog ::
    "world \<Rightarrow> report_env \<Rightarrow> string \<Rightarrow> part list \<Rightarrow> string \<Rightarrow> bool \<Rightarrow> world" where
  "logToSystemLog w e rid criticalParts filename isCritical =
     (if \<not> fs w then w
      else
        let logType = (if isCritical then ''CRITICAL'' else ''EMERGENCY'');
            logEntry = ''['' @ toISOString (logNow e) @ ''] '' @ logType @ '': '' @ rid @ '' - '' @
              dec (length criticalParts) @ '' critical parts - Report: '' @ filename
        in if logOk e then w\<lparr>reportsDir := appendLine logEntry (reportsDir w)\<rparr>
           else say LogWriteError w)"

text \<open>
  The way a call of \<open>generateEmergencyReport\<close> ended: the early return of the
  suppression window, an exception thrown while rendering, the return without
  \<open>fs\<close>, the return after a failed write, or the end of the body with the name of
  the file written.
\<close>

datatype outcome = Skipped | Threw | NoFs | WriteFailed | Emitted string

definition suppressed :: "world \<Rightarrow> string \<Rightarrow> int \<Rightarrow> bool" where
  "suppressed w key timestamp =
     (case map_of (lastReportTimes w) key of
        None \<Rightarrow> False
      | Some lastTime \<Rightarrow> timestamp - lastTime < 300000)"

definition isCriticalSet :: "part list \<Rightarrow> bool" where
  "isCriticalSet criticalParts =
     list_ex (\<lambda>part. status part = ''critical'' \<or> status part = ''emergency'') criticalParts"

definition reportFilename :: "bool \<Rightarrow> string \<Rightarrow> int \<Rightarrow> string" where
  "reportFilename isCritical rid timestamp =
     (let reportType = (if isCritical then ''CRITICAL'' else ''emergency'');
          isoForFilename =
            map (\<lambda>c. if c = CHR '':'' \<or> c = CHR ''.'' then CHR ''-'' else c) (toISOString timestamp)
      in reportType @ ''_report_'' @ rid @ ''_'' @ isoForFilename @ ''.txt'')"

definition generateEmergencyReport ::
    "world \<Rightarrow> report_env \<Rightarrow> string \<Rightarrow> robot_data \<Rightarrow> part list \<Rightarrow> outcome \<times> world" where
  "generateEmergencyReport w e rid robotData criticalParts =
     (let timestamp = now e;
          key = reportKey rid timestamp
      in if suppressed w key timestamp then (Skipped, w)
         else
           let isCritical = isCriticalSet criticalParts;
               w1 = say (if isCritical then CriticalReportStart rid (length criticalParts)
                         else EmergencyReportStart rid (length criticalParts)) w;
               filename = reportFilename isCritical rid timestamp
           in case generateReportContent robotData criticalParts timestamp isCritical of
                None \<Rightarrow> (Threw, w1)
              | Some reportContent \<Rightarrow>
                  if \<not> fs w1 then (NoFs, say FsUnavailable w1)
                  else if \<not> writeOk e then (WriteFailed, say WriteError w1)
                  else
                    let w2 = say (WriteSucceeded filename)
                          (w1\<lparr>reportsDir :=
                             AList.update filename (ReportBody reportContent) (reportsDir w1)\<rparr>);
                        w3 = w2\<lparr>lastReportTimes := AList.update key timestamp (lastReportTimes w2)\<rparr>;
                        w4 = say (ReportDone filename) w3
                    in (Emitted filename,
                        logToSystemLog w4 e rid criticalParts filename isCritical))"

subsection \<open>The status evaluator\<close>

definition criticalPartsOf :: "part list \<Rightarrow> part list" where
  "criticalPartsOf ps = filter (\<lambda>part. status part = ''critical'' \<or> status part = ''emergency'') ps"

definition warningPartsOf :: "part list \<Rightarrow> part list" where
  "warningPartsOf ps =
     filter (\<lambda>part. (case readings part of None \<Rightarrow> False | Some m \<Rightarrow> temperature m > 50) \<or>
                    status part = ''warning'') ps"

definition abnormalEntry :: "history_entry \<Rightarrow> bool" where
  "abnormalEntry h =
     (h_temperature h > 60 \<or> h_vibration h > 0.4 \<or> h_humidity h > 80 \<or> h_operatingHours h > 40)"

text \<open>
  The loop over \<open>Object.keys(history)\<close> that collects \<open>suspiciousParts\<close>, on the
  history of one robot. A part id without a part in the snapshot gives the object
  \<open>{ id: partId, name: partId }\<close>, which has no status before the update.
\<close>

definition suspiciousPartsOf :: "robot_data \<Rightarrow> part_history \<Rightarrow> part list" where
  "suspiciousPartsOf robotData history =
     concat (map (\<lambda>(partId, entries).
       let recent = slice_last 3 entries
       in if length recent = 3 \<and> list_all abnormalEntry recent
          then [(case find (\<lambda>p. id p = partId) (parts robotData) of
                   Some p \<Rightarrow> p
                 | None \<Rightarrow> \<lparr>id = partId, name = partId, status = [], readings = None\<rparr>)
                \<lparr>status := ''critical''\<rparr>]
          else []) history)"

text \<open>
  What one call of \<open>checkRobotStatus\<close> reads from its environment: the draws of the
  simulator, and the clock and file system at each of the two places where a report
  can be generated.
\<close>

record check_env =
  simEnv :: sim_env
  liveEnv :: report_env
  fallbackEnv :: report_env

text \<open>
  Lines 92 to 117 of \<open>checkRobotStatus\<close>: the snapshot, the two partitions and the
  report for the live readings. The outcome is \<open>None\<close> when no report was asked for.
\<close>

definition checkLive :: "world \<Rightarrow> check_env \<Rightarrow> string \<Rightarrow> robot_data \<times> outcome option \<times> world" where
  "checkLive w e rid =
     (let (robotData, w1) = getRobotData w (simEnv e) rid;
          criticalParts = criticalPartsOf (parts robotData);
          warningParts = warningPartsOf (parts robotData);
          w2 = say (CheckSummary rid (length criticalParts) (length warningParts)) w1
      in if length criticalParts > 0 then
           (case generateEmergencyReport (say (CriticalDetected rid) w2) (liveEnv e) rid robotData
                   criticalParts of
              (r, w3) \<Rightarrow> (robotData, Some r, w3))
         else if length warningParts > 0 then
           (case generateEmergencyReport (say (AnomalyDetected rid) w2) (liveEnv e) rid robotData
                   warningParts of
              (r, w3) \<Rightarrow> (robotData, Some r, w3))
         else (robotData, None, w2))"

text \<open>
  The \<open>catch\<close> of \<open>checkRobotStatus\<close>: an exception thrown by a report
  generation leaves the \<open>try\<close> block and is logged.
\<close>

definition caught :: "string \<Rightarrow> outcome \<times> world \<Rightarrow> world" where
  "caught rid rw = (if fst rw = Threw then say (DataError rid) (snd rw) else snd rw)"

definition checkRobotStatus :: "world \<Rightarrow> check_env \<Rightarrow> string \<Rightarrow> world" where
  "checkRobotStatus w e rid =
     (case checkLive w e rid of
        (robotData, r, w3) \<Rightarrow>
          if r = Some Threw then say (DataError rid) w3
          else if \<not> isRunning w3 \<and> length (criticalPartsOf (parts robotData)) = 0 then
            let history = (case map_of (historyBuffer w3) (robotId robotData) of
                             None \<Rightarrow> [] | Some h \<Rightarrow> h);
                suspiciousParts = suspiciousPartsOf robotData history
            in if length suspiciousParts > 0 then
                 caught rid (generateEmergencyReport (say FallbackForced w3) (fallbackEnv e)
                   (robotId robotData) robotData suspiciousParts)
               else w3
          else w3)"

subsection \<open>Starting, stopping and the status query\<close>

text \<open>
  What \<open>startMonitoring\<close> reads from its environment: whether listing the reports
  directory throws, for which entries the deletion throws, and the handle that
  \<open>setInterval\<close> returns.
\<close>

record start_env =
  listFails :: bool
  entryFails :: "string \<Rightarrow> bool"
  timerHandle :: nat

definition cleanReports :: "world \<Rightarrow> start_env \<Rightarrow> world" where
  "cleanReports w e =
     (if \<not> fs w then w
      else if listFails e then say CleanupFailed w
      else say CleanupDone
        (w\<lparr>reportsDir := filter (\<lambda>(entry, body). entryFails e entry) (reportsDir w),
           console := console w @
             map CleanupEntryError (filter (entryFails e) (map fst (reportsDir w)))\<rparr>))"

definition startMonitoring :: "world \<Rightarrow> start_env \<Rightarrow> world" where
  "startMonitoring w e =
     (if isRunning w then w
      else
        let w1 = say MonitoringStarted (w\<lparr>isRunning := True\<rparr>);
            w2 = cleanReports w1 e
        in w2\<lparr>monitoringInterval := Some (timerHandle e), timers := timers w2 @ [timerHandle e]\<rparr>)"

definition stopMonitoring :: "world \<Rightarrow> world" where
  "stopMonitoring w =
     (if \<not> isRunning w then w
      else
        let w1 = w\<lparr>isRunning := False\<rparr>;
            w2 = (case monitoringInterval w1 of
                    None \<Rightarrow> w1
                  | Some h \<Rightarrow> w1\<lparr>timers := removeAll h (timers w1), monitoringInterval := None\<rparr>)
        in say MonitoringStopped w2)"

record status_info =
  st_isRunning :: bool
  st_monitoringInterval :: string
  st_reportsGenerated :: nat
  st_lastReportTimes :: "(string \<times> int) list"

definition getStatus :: "world \<Rightarrow> status_info" where
  "getStatus w =
     \<lparr>st_isRunning = isRunning w,
      st_monitoringInterval = (if monitoringInterval w \<noteq> None then ''5 seconds'' else ''stopped''),
      st_reportsGenerated = length (map fst (lastReportTimes w)),
      st_lastReportTimes = lastReportTimes w\<rparr>"

subsection \<open>The conditions named by the specification\<close>

text \<open>
  Tier 1 and tier 2 of the status classification, on the readings of a part; the spike
  flags are not stored in a reading, so tier 1 takes them as an argument.
\<close>

definition tier1 :: "metrics \<Rightarrow> bool \<Rightarrow> bool" where
  "tier1 m spike =
     (temperature m > 60 \<or> vibration m > 0.4 \<or> humidity m > 80 \<or> operatingHours m > 40 \<or>
      voltage m < 22.5 \<or> cpuLoad m > 85 \<or> abnormalNoise m \<or> spike)"

definition tier2 :: "metrics \<Rightarrow> bool" where
  "tier2 m =
     (temperature m > 50 \<or> vibration m > 0.3 \<or> humidity m > 70 \<or> operatingHours m > 30 \<or>
      voltage m < 23.0 \<or> cpuLoad m > 75)"

definition anySpike :: "real \<Rightarrow> bool" where
  "anySpike seed = (tempSpike seed \<or> vibSpike seed \<or> humidSpike seed)"

definition numberedSteps :: "nat \<Rightarrow> string list \<Rightarrow> bool" where
  "numberedSteps n ls = (map (take 3) ls = map (\<lambda>i. dec i @ ''. '') [1 ..< Suc n])"

text \<open>
  The fallback rule in the words of the specification: a history with at least three
  entries whose last three all exceed a threshold, and the part synthesized for a part
  id (the part of the snapshot with that id, or else a part that has only the id as id
  and name), with its status forced to \<open>critical\<close>.
\<close>

definition sustainedAnomaly :: "history_entry list \<Rightarrow> bool" where
  "sustainedAnomaly es =
     (3 \<le> length es \<and>
      list_all (\<lambda>h. h_temperature h > 60 \<or> h_vibration h > 0.4 \<or> h_humidity h > 80 \<or>
                   h_operatingHours h > 40) (drop (length es - 3) es))"

definition forcedCritical :: "robot_data \<Rightarrow> string \<Rightarrow> part" where
  "forcedCritical rd pid =
     (case find (\<lambda>p. id p = pid) (parts rd) of
        Some p \<Rightarrow> p\<lparr>status := ''critical''\<rparr>
      | None \<Rightarrow> \<lparr>id = pid, name = pid, status = ''critical'', readings = None\<rparr>)"

subsection \<open>Sample inputs\<close>

definition sampleData :: robot_data where
  "sampleData =
     \<lparr>robotId = ''ROBOT_001'', robotName = ''Robot ROBOT_001'', parts = [], lastCheck = 0\<rparr>"

definition hotHead :: part where
  "hotHead = \<lparr>id = ''head'', name = ''[head]'', status = ''critical'',
     readings = Some \<lparr>temperature = 65, vibration = 0.15, humidity = 50, operatingHours = 10,
       lastUpdate = 0, voltage = 24, cpuLoad = 40, abnormalNoise = False\<rparr>\<rparr>"

definition warmHead :: part where
  "warmHead = \<lparr>id = ''head'', name = ''[head]'', status = ''warning'',
     readings = Some \<lparr>temperature = 55, vibration = 0.15, humidity = 50, operatingHours = 10,
       lastUpdate = 0, voltage = 24, cpuLoad = 40, abnormalNoise = False\<rparr>\<rparr>"

text \<open>The environment of a report generation at an instant, with the fate of the write.\<close>

definition envAt :: "int \<Rightarrow> bool \<Rightarrow> report_env" where
  "envAt t ok = \<lparr>now = t, writeOk = ok, logNow = t, logOk = True\<rparr>"

text \<open>
  A monitor that has emitted one report for \<open>ROBOT_001\<close>, at 03:00:00 UTC on
  1 January 2024 (noon in Tokyo).
\<close>

definition afterFirst :: world where
  "afterFirst =
     snd (generateEmergencyReport (constructed True []) (envAt 1704078000000 True) ''ROBOT_001''
            sampleData [hotHead])"

text \<open>An environment of \<open>startMonitoring\<close> where every deletion succeeds.\<close>

definition startEnv :: "nat \<Rightarrow> start_env" where
  "startEnv h = \<lparr>listFails = False, entryFails = (\<lambda>_. False), timerHandle = h\<rparr>"

text \<open>
  A stopped monitor whose history holds three entries with a vibration of 0.5 for a part
  id that is not in the roster, and a check whose draws give every part the status
  \<open>normal\<close>.
\<close>

definition hotEntry :: history_entry where
  "hotEntry = \<lparr>h_temperature = 40, h_vibration = 0.5, h_humidity = 50, h_operatingHours = 10,
     h_timestamp = 0\<rparr>"

definition stoppedWithHistory :: world where
  "stoppedWithHistory =
     (constructed True [])
       \<lparr>historyBuffer := [(''ROBOT_001'', [(''gripper'', [hotEntry, hotEntry, hotEntry])])]\<rparr>"

definition calmCheck :: check_env where
  "calmCheck =
     \<lparr>simEnv = \<lparr>seedAt = (\<lambda>_. 101.5), stampAt = (\<lambda>_. 1704078000000), checkStamp = 1704078000000\<rparr>,
      liveEnv = envAt 1704078000000 True, fallbackEnv = envAt 1704078000000 True\<rparr>"


text \<open>
  Draws of 40 for every part (operating hours 41, so every part is critical), and the
  monitor, never started, after three calls of \<open>getRobotData\<close> with them.
\<close>

definition hotSim :: sim_env where
  "hotSim = \<lparr>seedAt = (\<lambda>_. 40), stampAt = (\<lambda>_. 1704077000000), checkStamp = 1704077000000\<rparr>"

definition afterThreeHot :: world where
  "afterThreeHot =
     getRobotData_calls (constructed True [])
       [(hotSim, ''ROBOT_001''), (hotSim, ''ROBOT_001''), (hotSim, ''ROBOT_001'')]"

section \<open>Properties\<close>

subsection \<open>The simulator\<close>

lemma parts_getRobotData: "parts (fst (getRobotData w e rid)) = simulateParts e"
  by (simp add: getRobotData_def Let_def)

lemma length_simulateParts: "length (simulateParts e) = length robotParts"
  by (simp add: simulateParts_def)

lemma nth_simulateParts:
  "i < length robotParts \<Longrightarrow>
   simulateParts e ! i = simulatePart (robotParts ! i) (seedAt e i) (stampAt e i)"
  by (simp add: simulateParts_def)

lemma simulatePart_tiers:
  "\<exists>m. readings (simulatePart rp seed t) = Some m \<and>
     (status (simulatePart rp seed t) = ''critical'' \<longleftrightarrow> tier1 m (anySpike seed)) \<and>
     (status (simulatePart rp seed t) = ''warning'' \<longleftrightarrow> \<not> tier1 m (anySpike seed) \<and> tier2 m) \<and>
     (status (simulatePart rp seed t) = ''normal'' \<longleftrightarrow> \<not> tier1 m (anySpike seed) \<and> \<not> tier2 m)"
  by (simp add: simulatePart_def status_of_def tier1_def tier2_def anySpike_def
      longRun_def lowVoltage_def highCpu_def)

text \<open>
  C1. The snapshot that \<open>getRobotData\<close> returns has one part for each position of
  the roster; the part at every position has readings, and its status is \<open>critical\<close>
  exactly when a tier-1 condition holds of them or one of the three spike flags of its
  draw is set, \<open>warning\<close> exactly when no tier-1 condition holds and a tier-2
  condition does, and \<open>normal\<close> exactly when neither holds.
\<close>

theorem status_classification:
  assumes "i < length robotParts"
  shows "length (parts (fst (getRobotData w e rid))) = length robotParts \<and>
    (\<exists>m. readings (parts (fst (getRobotData w e rid)) ! i) = Some m \<and>
     (status (parts (fst (getRobotData w e rid)) ! i) = ''critical'' \<longleftrightarrow>
        tier1 m (anySpike (seedAt e i))) \<and>
     (status (parts (fst (getRobotData w e rid)) ! i) = ''warning'' \<longleftrightarrow>
        \<not> tier1 m (anySpike (seedAt e i)) \<and> tier2 m) \<and>
     (status (parts (fst (getRobotData w e rid)) ! i) = ''normal'' \<longleftrightarrow>
        \<not> tier1 m (anySpike (seedAt e i)) \<and> \<not> tier2 m))"
  using assms simulatePart_tiers
  by (simp add: parts_getRobotData nth_simulateParts length_simulateParts)

lemma js_rem_0: "js_rem 0 m = 0"
  by (simp add: js_rem_def)

text \<open>A draw of 0 sets every spike flag: the head of the snapshot is critical.\<close>

theorem status_classification_witness:
  "status (parts (fst (getRobotData (constructed True [])
      \<lparr>seedAt = \<lambda>_. 0, stampAt = \<lambda>_. 0, checkStamp = 0\<rparr> ''ROBOT_001'')) ! 0) = ''critical''"
  using status_classification [of 0 "constructed True []"
      "\<lparr>seedAt = \<lambda>_. 0, stampAt = \<lambda>_. 0, checkStamp = 0\<rparr>" "''ROBOT_001''"]
  by (auto simp add: robotParts_def tier1_def anySpike_def tempSpike_def js_rem_0)

lemma status_of_cases:
  "status_of seed = ''critical'' \<or> status_of seed = ''warning'' \<or> status_of seed = ''normal''"
  by (simp add: status_of_def)

lemma status_simulatePart: "status (simulatePart rp seed t) = status_of seed"
  by (simp add: simulatePart_def)

lemma simulateParts_status:
  "p \<in> set (simulateParts e) \<Longrightarrow>
   status p = ''critical'' \<or> status p = ''warning'' \<or> status p = ''normal''"
  using status_of_cases by (fastforce simp add: simulateParts_def status_simulatePart)

text \<open>
  C9. Every part of a snapshot that \<open>getRobotData\<close> returns has one of the statuses
  \<open>normal\<close>, \<open>warning\<close> and \<open>critical\<close>, none has the status \<open>emergency\<close>, and
  the critical partition of the evaluator is the list of the parts whose status is
  \<open>critical\<close>.
\<close>

theorem simulated_status_range:
  "list_all (\<lambda>p. status p = ''normal'' \<or> status p = ''warning'' \<or> status p = ''critical'')
     (parts (fst (getRobotData w e rid))) \<and>
   \<not> list_ex (\<lambda>p. status p = ''emergency'') (parts (fst (getRobotData w e rid))) \<and>
   criticalPartsOf (parts (fst (getRobotData w e rid))) =
     filter (\<lambda>p. status p = ''critical'') (parts (fst (getRobotData w e rid)))"
proof -
  have a: "\<And>p. p \<in> set (simulateParts e) \<Longrightarrow>
      status p = ''critical'' \<or> status p = ''warning'' \<or> status p = ''normal''"
    by (rule simulateParts_status)
  have b: "\<And>p. p \<in> set (simulateParts e) \<Longrightarrow> status p \<noteq> ''emergency''"
    using a by fastforce
  have "filter (\<lambda>p. status p = ''critical'' \<or> status p = ''emergency'') (simulateParts e) =
      filter (\<lambda>p. status p = ''critical'') (simulateParts e)"
    by (rule filter_cong) (use b in auto)
  with a b show ?thesis
    by (auto simp add: parts_getRobotData list_all_iff list_ex_iff criticalPartsOf_def)
qed

subsection \<open>The history buffer\<close>

lemma slice_last_rev: "slice_last k xs = rev (take k (rev xs))"
  by (simp add: slice_last_def take_rev)

lemma slice_last_append:
  "slice_last k (slice_last k xs @ ys) = slice_last k (xs @ ys)"
  by (simp add: slice_last_rev min_def)

lemma length_slice_last: "length (slice_last k xs) = min (length xs) k"
  by (simp add: slice_last_def)

lemma slice_last_id: "length xs \<le> k \<Longrightarrow> slice_last k xs = xs"
  by (simp add: slice_last_def)

lemma cap_is_slice: "(if length xs > 10 then slice_last 10 xs else xs) = slice_last 10 xs"
  by (simp add: slice_last_def)

lemma map_of_pushHistory:
  "map_of (pushHistory pid entry h) q =
     (if q = pid
      then Some (slice_last 10 ((case map_of h pid of None \<Rightarrow> [] | Some es \<Rightarrow> es) @ [entry]))
      else map_of h q)"
  by (simp add: pushHistory_def Let_def cap_is_slice update_conv' del: One_nat_def)

lemma recordPart_None: "readings p = None \<Longrightarrow> recordPart p h = h"
  by (simp add: recordPart_def)

lemma recordPart_Some:
  "readings p = Some m \<Longrightarrow> recordPart p h = pushHistory (id p) (historyEntry m) h"
  by (simp add: recordPart_def)

lemma entriesIn_Cons:
  "entriesIn q (p # ps) =
     (if id p = q then (case readings p of None \<Rightarrow> [] | Some m \<Rightarrow> [historyEntry m]) else []) @
     entriesIn q ps"
  by (simp add: entriesIn_def)

lemma entriesIn_Nil: "entriesIn q [] = []"
  by (simp add: entriesIn_def)

lemma map_of_fold_recordPart:
  "map_of (fold recordPart ps h) q =
     (if entriesIn q ps = [] then map_of h q
      else Some (slice_last 10
             ((case map_of h q of None \<Rightarrow> [] | Some es \<Rightarrow> es) @ entriesIn q ps)))"
proof (induction ps arbitrary: h)
  case Nil
  show ?case by (simp add: entriesIn_Nil)
next
  case (Cons p ps)
  show ?case
  proof (cases "readings p")
    case None
    then show ?thesis by (simp add: Cons.IH entriesIn_Cons recordPart_None)
  next
    case (Some m)
    then show ?thesis
      by (simp add: Cons.IH entriesIn_Cons recordPart_Some map_of_pushHistory slice_last_append
          del: One_nat_def)
  qed
qed

text \<open>One call: the key of the robot and part gets the new entries, capped at ten.\<close>

lemma historyOf_getRobotData:
  "historyOf (snd (getRobotData w e r)) rid pid =
     (if r = rid \<and> entriesIn pid (simulateParts e) \<noteq> []
      then slice_last 10 (historyOf w rid pid @ entriesIn pid (simulateParts e))
      else historyOf w rid pid)"
  by (simp add: getRobotData_def Let_def historyOf_def update_conv' map_of_fold_recordPart
      split: option.splits)

lemma historyOf_calls:
  "length (historyOf w rid pid) \<le> 10 \<Longrightarrow>
   historyOf (getRobotData_calls w cs) rid pid =
     slice_last 10 (historyOf w rid pid @ appendedFor rid pid cs)"
proof (induction cs arbitrary: w)
  case Nil
  then show ?case by (simp add: slice_last_id)
next
  case (Cons c cs)
  obtain e r where c: "c = (e, r)" by (cases c)
  let ?w = "snd (getRobotData w e r)"
  have len: "length (historyOf ?w rid pid) \<le> 10"
    using Cons.prems by (simp add: historyOf_getRobotData length_slice_last)
  show ?case
    using Cons.IH [OF len] by (simp add: c historyOf_getRobotData slice_last_append)
qed

lemma historyOf_constructed: "historyOf (constructed hasFs dir) rid pid = []"
  by (simp add: historyOf_def constructed_def)


subsection \<open>Report emission and the suppression window\<close>

lemma content_Some:
  "list_all (\<lambda>p. readings p \<noteq> None) ps \<Longrightarrow>
   \<exists>c. generateReportContent rd ps t crit = Some c \<and>
     rc_level c = (if crit then ''CRITICAL'' else ''warning'') \<and>
     rc_procedure c = actionProcedure crit"
  by (simp add: generateReportContent_def list_all_iff list_ex_iff)

lemma content_None:
  "\<not> list_all (\<lambda>p. readings p \<noteq> None) ps \<Longrightarrow> generateReportContent rd ps t crit = None"
  by (simp add: generateReportContent_def list_all_iff list_ex_iff)

text \<open>The branches of \<open>generateEmergencyReport\<close>, one by one.\<close>

lemma generateEmergencyReport_cases:
  "generateEmergencyReport w e rid rd ps =
     (if suppressed w (reportKey rid (now e)) (now e) then (Skipped, w)
      else case generateReportContent rd ps (now e) (isCriticalSet ps) of
        None \<Rightarrow> (Threw, say (if isCriticalSet ps then CriticalReportStart rid (length ps)
                   else EmergencyReportStart rid (length ps)) w)
      | Some c \<Rightarrow>
         if \<not> fs w then (NoFs, say FsUnavailable (say (if isCriticalSet ps then CriticalReportStart rid (length ps)
                   else EmergencyReportStart rid (length ps)) w))
         else if \<not> writeOk e then (WriteFailed, say WriteError (say (if isCriticalSet ps then CriticalReportStart rid (length ps)
                   else EmergencyReportStart rid (length ps)) w))
         else (Emitted (reportFilename (isCriticalSet ps) rid (now e)),
     logToSystemLog
       (say (ReportDone (reportFilename (isCriticalSet ps) rid (now e)))
         ((say (WriteSucceeded (reportFilename (isCriticalSet ps) rid (now e)))
            ((say (if isCriticalSet ps then CriticalReportStart rid (length ps)
                   else EmergencyReportStart rid (length ps)) w)
              \<lparr>reportsDir := AList.update (reportFilename (isCriticalSet ps) rid (now e))
                 (ReportBody c) (reportsDir w)\<rparr>))
           \<lparr>lastReportTimes := AList.update (reportKey rid (now e)) (now e) (lastReportTimes w)\<rparr>))
       e rid ps (reportFilename (isCriticalSet ps) rid (now e)) (isCriticalSet ps)))"
  by (simp add: generateEmergencyReport_def Let_def say_def split: option.splits)

lemma lastReportTimes_logToSystemLog:
  "lastReportTimes (logToSystemLog w e rid ps fn crit) = lastReportTimes w"
  by (simp add: logToSystemLog_def Let_def say_def)

lemma reportFilename_first:
  "hd (reportFilename crit rid t) = (if crit then CHR ''C'' else CHR ''e'')"
  by (simp add: reportFilename_def Let_def)

lemma reportFilename_not_log: "reportFilename crit rid t \<noteq> ''system_monitor.log''"
proof
  assume "reportFilename crit rid t = ''system_monitor.log''"
  then have "hd (reportFilename crit rid t) = CHR ''s''" by simp
  then show False by (simp add: reportFilename_first split: if_splits)
qed

lemma reportFilename_prefix:
  "prefix (if crit then ''CRITICAL_report_'' else ''emergency_report_'') (reportFilename crit rid t)"
  by (simp add: reportFilename_def Let_def)

lemma map_of_appendLine:
  "fn \<noteq> ''system_monitor.log'' \<Longrightarrow> map_of (appendLine l dir) fn = map_of dir fn"
  by (simp add: appendLine_def update_conv')

lemma reportsDir_logToSystemLog:
  "fn' \<noteq> ''system_monitor.log'' \<Longrightarrow>
   map_of (reportsDir (logToSystemLog w e rid ps fn crit)) fn' = map_of (reportsDir w) fn'"
  by (simp add: logToSystemLog_def Let_def say_def map_of_appendLine)

lemma dec_digit: "n < 10 \<Longrightarrow> dec n = [digit n]"
  by (simp add: dec.simps)

lemma dec_more: "10 \<le> n \<Longrightarrow> dec n = dec (n div 10) @ [digit n]"
  by (simp add: dec.simps)

lemmas render_defs = dateString_def eraOf_def dayOfEra_def yearOfEra_def dayOfYear_def
  monthIndex_def dayOf_def monthOf_def yearOf_def pad2_def pad3_def pad4_def
  digit_def toISOString_def jpDateKey_def reportKey_def reportFilename_def dec_digit dec_more

lemma numberedSteps_actionProcedure:
  "numberedSteps (if crit then 6 else 5) (actionProcedure crit)"
  by (cases crit) (simp_all add: numberedSteps_def actionProcedure_def dec_digit digit_def upt_rec)



lemmas sample_defs = sampleData_def hotHead_def warmHead_def envAt_def constructed_def
  isCriticalSet_def generateReportContent_def suppressed_def say_def logToSystemLog_def
  appendLine_def


lemma fs_generateEmergencyReport: "fs (snd (generateEmergencyReport w e rid rd ps)) = fs w"
  by (simp add: generateEmergencyReport_cases say_def logToSystemLog_def Let_def split: option.splits)

lemma emitted_file:
  assumes "\<not> suppressed w (reportKey rid (now e)) (now e)" and "fs w" and "writeOk e"
    and "list_all (\<lambda>p. readings p \<noteq> None) ps"
  shows "fst (generateEmergencyReport w e rid rd ps) =
      Emitted (reportFilename (isCriticalSet ps) rid (now e)) \<and>
    (\<exists>c. generateReportContent rd ps (now e) (isCriticalSet ps) = Some c \<and>
       map_of (reportsDir (snd (generateEmergencyReport w e rid rd ps)))
         (reportFilename (isCriticalSet ps) rid (now e)) = Some (ReportBody c)) \<and>
    map_of (lastReportTimes (snd (generateEmergencyReport w e rid rd ps))) (reportKey rid (now e)) =
      Some (now e)"
proof -
  obtain c where c: "generateReportContent rd ps (now e) (isCriticalSet ps) = Some c"
    using content_Some [OF assms(4)] by blast
  show ?thesis
    using assms(1-3) c
    by (simp add: generateEmergencyReport_cases lastReportTimes_logToSystemLog
        reportsDir_logToSystemLog reportFilename_not_log say_def update_conv')
qed

text \<open>
  C2, as amended. A call of \<open>generateEmergencyReport\<close> at the instant \<open>t\<close>
  for the key \<open>K\<close> of the robot and the Tokyo date of \<open>t\<close>: when the map holds
  a time \<open>t'\<close> for \<open>K\<close> with \<open>t - t' < 300000\<close> the call returns at once and
  leaves the monitor, the reports directory and the console as they were. When the map
  holds no time for \<open>K\<close>, or \<open>t - t'\<close> is at least 300000, and in addition
  \<open>fs\<close> is available, every affected part has readings and the write succeeds, the
  report file is written under its name and the map holds \<open>t\<close> for \<open>K\<close>.
\<close>

theorem suppression_window:
  "((\<exists>t'. map_of (lastReportTimes w) (reportKey rid (now e)) = Some t' \<and> now e - t' < 300000) \<longrightarrow>
      generateEmergencyReport w e rid rd ps = (Skipped, w)) \<and>
   ((map_of (lastReportTimes w) (reportKey rid (now e)) = None \<or>
     (\<exists>t'. map_of (lastReportTimes w) (reportKey rid (now e)) = Some t' \<and> 300000 \<le> now e - t')) \<and>
    fs w \<and> writeOk e \<and> list_all (\<lambda>p. readings p \<noteq> None) ps \<longrightarrow>
      fst (generateEmergencyReport w e rid rd ps) =
        Emitted (reportFilename (isCriticalSet ps) rid (now e)) \<and>
      (\<exists>c. map_of (reportsDir (snd (generateEmergencyReport w e rid rd ps)))
         (reportFilename (isCriticalSet ps) rid (now e)) = Some (ReportBody c)) \<and>
      map_of (lastReportTimes (snd (generateEmergencyReport w e rid rd ps))) (reportKey rid (now e)) =
        Some (now e))"
proof (intro conjI impI)
  assume "\<exists>t'. map_of (lastReportTimes w) (reportKey rid (now e)) = Some t' \<and> now e - t' < 300000"
  then have "suppressed w (reportKey rid (now e)) (now e)"
    by (auto simp add: suppressed_def)
  then show "generateEmergencyReport w e rid rd ps = (Skipped, w)"
    by (simp add: generateEmergencyReport_cases)
next
  assume a: "(map_of (lastReportTimes w) (reportKey rid (now e)) = None \<or>
     (\<exists>t'. map_of (lastReportTimes w) (reportKey rid (now e)) = Some t' \<and> 300000 \<le> now e - t')) \<and>
    fs w \<and> writeOk e \<and> list_all (\<lambda>p. readings p \<noteq> None) ps"
  then have n: "\<not> suppressed w (reportKey rid (now e)) (now e)"
    by (auto simp add: suppressed_def)
  from emitted_file [OF n, where rd = rd and ps = ps] a
  show "fst (generateEmergencyReport w e rid rd ps) =
        Emitted (reportFilename (isCriticalSet ps) rid (now e))"
    and "\<exists>c. map_of (reportsDir (snd (generateEmergencyReport w e rid rd ps)))
         (reportFilename (isCriticalSet ps) rid (now e)) = Some (ReportBody c)"
    and "map_of (lastReportTimes (snd (generateEmergencyReport w e rid rd ps))) (reportKey rid (now e)) =
        Some (now e)"
    by auto
qed

lemma afterFirst_times: "lastReportTimes afterFirst = [(''ROBOT_001_2024-01-01'', 1704078000000)]"
  by (simp add: afterFirst_def generateEmergencyReport_cases sample_defs render_defs)

lemma afterFirst_fs: "fs afterFirst"
  by (simp add: afterFirst_def fs_generateEmergencyReport constructed_def)

lemma sample_keys:
  "reportKey ''ROBOT_001'' 1704078000000 = ''ROBOT_001_2024-01-01''"
  "reportKey ''ROBOT_001'' 1704078010000 = ''ROBOT_001_2024-01-01''"
  "reportKey ''ROBOT_001'' 1704078300000 = ''ROBOT_001_2024-01-01''"
  by (simp_all add: render_defs)

lemma sample_names:
  "reportFilename True ''ROBOT_001'' 1704078000000 =
     ''CRITICAL_report_ROBOT_001_2024-01-01T03-00-00-000Z.txt''"
  "reportFilename True ''ROBOT_001'' 1704078300000 =
     ''CRITICAL_report_ROBOT_001_2024-01-01T03-05-00-000Z.txt''"
  "reportFilename False ''ROBOT_001'' 1704078000000 =
     ''emergency_report_ROBOT_001_2024-01-01T03-00-00-000Z.txt''"
  by (simp_all add: render_defs)

text \<open>
  Ten seconds after the first report the call is skipped; five minutes after it, on the
  same Tokyo date, a second report is written; the first call itself found no time.
\<close>

theorem suppression_window_witness:
  "generateEmergencyReport afterFirst (envAt 1704078010000 True) ''ROBOT_001'' sampleData [hotHead] =
     (Skipped, afterFirst) \<and>
   fst (generateEmergencyReport afterFirst (envAt 1704078300000 True) ''ROBOT_001'' sampleData
          [hotHead]) =
     Emitted ''CRITICAL_report_ROBOT_001_2024-01-01T03-05-00-000Z.txt'' \<and>
   fst (generateEmergencyReport (constructed True []) (envAt 1704078000000 True) ''ROBOT_001''
          sampleData [hotHead]) =
     Emitted ''CRITICAL_report_ROBOT_001_2024-01-01T03-00-00-000Z.txt''"
  using suppression_window [of afterFirst "''ROBOT_001''" "envAt 1704078010000 True" sampleData "[hotHead]"]
    suppression_window [of afterFirst "''ROBOT_001''" "envAt 1704078300000 True" sampleData "[hotHead]"]
    suppression_window [of "constructed True []" "''ROBOT_001''" "envAt 1704078000000 True" sampleData "[hotHead]"]
  by (simp add: afterFirst_times afterFirst_fs sample_keys sample_names envAt_def hotHead_def
      isCriticalSet_def constructed_def)

text \<open>
  C2 as stated fails: with no time recorded for the key, a call whose write fails emits
  no report.
\<close>

theorem unsuppressed_call_without_report:
  "map_of (lastReportTimes (constructed True [])) (reportKey ''ROBOT_001'' 1704078000000) = None \<and>
   fst (generateEmergencyReport (constructed True []) (envAt 1704078000000 False) ''ROBOT_001''
          sampleData [hotHead]) = WriteFailed \<and>
   reportsDir (snd (generateEmergencyReport (constructed True []) (envAt 1704078000000 False)
          ''ROBOT_001'' sampleData [hotHead])) = [] \<and>
   lastReportTimes (snd (generateEmergencyReport (constructed True []) (envAt 1704078000000 False)
          ''ROBOT_001'' sampleData [hotHead])) = []"
  by (simp add: generateEmergencyReport_cases sample_defs)


text \<open>
  C5. A call of \<open>generateEmergencyReport\<close> ends in the \<open>catch\<close> of the file write
  exactly when it is not suppressed, the report renders, \<open>fs\<close> is available and the
  write fails; it then leaves the dedup map and the reports directory (so also the log
  file) as they were: but for the console, the state after the call is the state before.
\<close>

theorem failed_write_changes_nothing:
  "(fst (generateEmergencyReport w e rid rd ps) = WriteFailed \<longleftrightarrow>
      \<not> suppressed w (reportKey rid (now e)) (now e) \<and> list_all (\<lambda>p. readings p \<noteq> None) ps \<and>
      fs w \<and> \<not> writeOk e) \<and>
   (fst (generateEmergencyReport w e rid rd ps) = WriteFailed \<longrightarrow>
      lastReportTimes (snd (generateEmergencyReport w e rid rd ps)) = lastReportTimes w \<and>
      reportsDir (snd (generateEmergencyReport w e rid rd ps)) = reportsDir w \<and>
      (snd (generateEmergencyReport w e rid rd ps))\<lparr>console := console w\<rparr> = w)"
proof (cases "list_all (\<lambda>p. readings p \<noteq> None) ps")
  case True
  then obtain c where "generateReportContent rd ps (now e) (isCriticalSet ps) = Some c"
    using content_Some by blast
  with True show ?thesis
    by (simp add: generateEmergencyReport_cases say_def)
next
  case False
  then have "generateReportContent rd ps (now e) (isCriticalSet ps) = None"
    by (rule content_None)
  with False show ?thesis
    by (simp add: generateEmergencyReport_cases say_def)
qed

text \<open>
  A failed write five minutes after the first report: the map still holds the time of
  the first report only.
\<close>

theorem failed_write_changes_nothing_witness:
  "fst (generateEmergencyReport afterFirst (envAt 1704078300000 False) ''ROBOT_001'' sampleData
          [hotHead]) = WriteFailed \<and>
   lastReportTimes (snd (generateEmergencyReport afterFirst (envAt 1704078300000 False)
          ''ROBOT_001'' sampleData [hotHead])) = [(''ROBOT_001_2024-01-01'', 1704078000000)] \<and>
   reportsDir (snd (generateEmergencyReport afterFirst (envAt 1704078300000 False)
          ''ROBOT_001'' sampleData [hotHead])) = reportsDir afterFirst"
  using failed_write_changes_nothing [of afterFirst "envAt 1704078300000 False" "''ROBOT_001''"
      sampleData "[hotHead]"]
  by (simp add: afterFirst_times afterFirst_fs sample_keys suppressed_def envAt_def hotHead_def)

subsection \<open>Severity of a report\<close>

text \<open>
  C6. When \<open>generateEmergencyReport\<close> has emitted a report under the name
  \<open>fn\<close>, the file \<open>fn\<close> holds a report whose level line reads \<open>CRITICAL\<close> exactly
  when some affected part has the status \<open>critical\<close> or \<open>emergency\<close>; in that
  case \<open>fn\<close> starts with \<open>CRITICAL_report_\<close> and the action procedure has the
  six steps numbered 1 to 6, otherwise \<open>fn\<close> starts with \<open>emergency_report_\<close> and
  the action procedure has the five steps numbered 1 to 5.
\<close>

theorem severity_of_emitted_report:
  assumes "generateEmergencyReport w e rid rd ps = (Emitted fn, w')"
  shows "\<exists>c. map_of (reportsDir w') fn = Some (ReportBody c) \<and>
    (rc_level c = ''CRITICAL'' \<longleftrightarrow>
       list_ex (\<lambda>p. status p = ''critical'' \<or> status p = ''emergency'') ps) \<and>
    (if list_ex (\<lambda>p. status p = ''critical'' \<or> status p = ''emergency'') ps
     then prefix ''CRITICAL_report_'' fn \<and> numberedSteps 6 (rc_procedure c)
     else prefix ''emergency_report_'' fn \<and> numberedSteps 5 (rc_procedure c))"
proof -
  let ?crit = "isCriticalSet ps"
  have n: "\<not> suppressed w (reportKey rid (now e)) (now e)"
    using assms by (auto simp add: generateEmergencyReport_cases)
  have r: "list_all (\<lambda>p. readings p \<noteq> None) ps"
  proof (rule ccontr)
    assume "\<not> list_all (\<lambda>p. readings p \<noteq> None) ps"
    then have "generateReportContent rd ps (now e) ?crit = None" by (rule content_None)
    with assms n show False by (simp add: generateEmergencyReport_cases)
  qed
  obtain c where c: "generateReportContent rd ps (now e) ?crit = Some c"
    and lv: "rc_level c = (if ?crit then ''CRITICAL'' else ''warning'')"
    and pr: "rc_procedure c = actionProcedure ?crit"
    using content_Some [OF r] by blast
  have ok: "fs w \<and> writeOk e"
    using assms n c by (auto simp add: generateEmergencyReport_cases split: if_splits)
  have fn: "fn = reportFilename ?crit rid (now e)"
    using assms n c ok by (simp add: generateEmergencyReport_cases)
  have w': "w' = snd (generateEmergencyReport w e rid rd ps)"
    using assms by simp
  have written: "map_of (reportsDir w') fn = Some (ReportBody c)"
    using n c ok
    by (simp add: w' fn generateEmergencyReport_cases reportsDir_logToSystemLog
        reportFilename_not_log say_def update_conv')
  have pre: "prefix (if ?crit then ''CRITICAL_report_'' else ''emergency_report_'') fn"
    unfolding fn by (rule reportFilename_prefix)
  have steps: "numberedSteps (if ?crit then 6 else 5) (rc_procedure c)"
    unfolding pr by (rule numberedSteps_actionProcedure)
  have crit: "?crit = list_ex (\<lambda>p. status p = ''critical'' \<or> status p = ''emergency'') ps"
    by (simp add: isCriticalSet_def)
  show ?thesis
    using written lv pre steps unfolding crit by (intro exI [of _ c]) (auto split: if_splits)
qed


text \<open>A report for a part with a warning, and the critical report of the sample monitor.\<close>

theorem severity_of_emitted_report_witness:
  "(\<exists>c. map_of (reportsDir (snd (generateEmergencyReport (constructed True [])
            (envAt 1704078000000 True) ''ROBOT_001'' sampleData [warmHead])))
          ''emergency_report_ROBOT_001_2024-01-01T03-00-00-000Z.txt'' = Some (ReportBody c) \<and>
        rc_level c \<noteq> ''CRITICAL'' \<and> numberedSteps 5 (rc_procedure c)) \<and>
   (\<exists>c. map_of (reportsDir afterFirst)
          ''CRITICAL_report_ROBOT_001_2024-01-01T03-00-00-000Z.txt'' = Some (ReportBody c) \<and>
        rc_level c = ''CRITICAL'' \<and> numberedSteps 6 (rc_procedure c))"
proof -
  let ?G = "generateEmergencyReport (constructed True []) (envAt 1704078000000 True) ''ROBOT_001''
    sampleData [warmHead]"
  let ?H = "generateEmergencyReport (constructed True []) (envAt 1704078000000 True) ''ROBOT_001''
    sampleData [hotHead]"
  have "fst ?G = Emitted ''emergency_report_ROBOT_001_2024-01-01T03-00-00-000Z.txt''"
    using emitted_file [of "constructed True []" "''ROBOT_001''" "envAt 1704078000000 True"
        "[warmHead]" sampleData]
    by (simp add: suppressed_def constructed_def envAt_def warmHead_def isCriticalSet_def
        sample_names)
  then have g: "?G = (Emitted ''emergency_report_ROBOT_001_2024-01-01T03-00-00-000Z.txt'', snd ?G)"
    by (simp add: prod_eq_iff)
  have "fst ?H = Emitted ''CRITICAL_report_ROBOT_001_2024-01-01T03-00-00-000Z.txt''"
    using emitted_file [of "constructed True []" "''ROBOT_001''" "envAt 1704078000000 True"
        "[hotHead]" sampleData]
    by (simp add: suppressed_def constructed_def envAt_def hotHead_def isCriticalSet_def
        sample_names)
  then have h: "?H = (Emitted ''CRITICAL_report_ROBOT_001_2024-01-01T03-00-00-000Z.txt'', afterFirst)"
    by (simp add: prod_eq_iff afterFirst_def)
  show ?thesis
    using severity_of_emitted_report [OF g] severity_of_emitted_report [OF h]
    by (simp add: warmHead_def hotHead_def)
qed

subsection \<open>The date in the dedup key\<close>

text \<open>
  C8. Two calls for \<open>ROBOT_001\<close> three minutes apart, at 23:58 and at 00:01 of the
  next day in Tokyo (14:58 and 15:01 UTC on 1 January 2024): the two dedup keys differ,
  and both calls emit a report.
\<close>

theorem midnight_rollover_two_reports:
  "let r1 = generateEmergencyReport (constructed True []) (envAt 1704121080000 True) ''ROBOT_001''
              sampleData [hotHead];
       r2 = generateEmergencyReport (snd r1) (envAt 1704121260000 True) ''ROBOT_001''
              sampleData [hotHead]
   in jpDateKey 1704121080000 = ''2024-01-01'' \<and> jpDateKey 1704121260000 = ''2024-01-02'' \<and>
      (1704121260000 :: int) - 1704121080000 < 300000 \<and>
      fst r1 = Emitted ''CRITICAL_report_ROBOT_001_2024-01-01T14-58-00-000Z.txt'' \<and>
      fst r2 = Emitted ''CRITICAL_report_ROBOT_001_2024-01-01T15-01-00-000Z.txt'' \<and>
      map fst (reportsDir (snd r2)) =
        [''CRITICAL_report_ROBOT_001_2024-01-01T14-58-00-000Z.txt'', ''system_monitor.log'',
         ''CRITICAL_report_ROBOT_001_2024-01-01T15-01-00-000Z.txt''] \<and>
      lastReportTimes (snd r2) =
        [(''ROBOT_001_2024-01-01'', 1704121080000), (''ROBOT_001_2024-01-02'', 1704121260000)]"
  by (simp add: generateEmergencyReport_cases sample_defs render_defs)

subsection \<open>The status query\<close>

text \<open>
  C7, at an input where it fails. Two calls for \<open>ROBOT_001\<close> five minutes apart on
  one Tokyo date both emit a report, and the reports directory holds both files;
  \<open>getStatus\<close> then returns 1 as \<open>reportsGenerated\<close>, the number of keys of the
  dedup map.
\<close>

theorem reports_generated_counts_keys:
  "let r1 = generateEmergencyReport (constructed True []) (envAt 1704078000000 True) ''ROBOT_001''
              sampleData [hotHead];
       r2 = generateEmergencyReport (snd r1) (envAt 1704078300000 True) ''ROBOT_001''
              sampleData [hotHead]
   in fst r1 = Emitted ''CRITICAL_report_ROBOT_001_2024-01-01T03-00-00-000Z.txt'' \<and>
      fst r2 = Emitted ''CRITICAL_report_ROBOT_001_2024-01-01T03-05-00-000Z.txt'' \<and>
      map fst (reportsDir (snd r2)) =
        [''CRITICAL_report_ROBOT_001_2024-01-01T03-00-00-000Z.txt'', ''system_monitor.log'',
         ''CRITICAL_report_ROBOT_001_2024-01-01T03-05-00-000Z.txt''] \<and>
      lastReportTimes (snd r2) = [(''ROBOT_001_2024-01-01'', 1704078300000)] \<and>
      st_reportsGenerated (getStatus (snd r2)) = 1"
  by (simp add: generateEmergencyReport_cases sample_defs render_defs getStatus_def)

subsection \<open>Starting and stopping\<close>

lemma isRunning_cleanReports: "isRunning (cleanReports w e) = isRunning w"
  by (simp add: cleanReports_def say_def)

lemma isRunning_startMonitoring: "isRunning (startMonitoring w e) = True"
  by (simp add: startMonitoring_def Let_def say_def isRunning_cleanReports)

lemma isRunning_stopMonitoring: "isRunning (stopMonitoring w) = False"
  by (simp add: stopMonitoring_def Let_def say_def split: option.splits)

text \<open>
  C10. \<open>startMonitoring\<close> on a running monitor and \<open>stopMonitoring\<close> on a stopped
  monitor change nothing (no entry of the reports directory is deleted, no timer is set
  or cleared, nothing is logged); so starting twice is starting once, whatever the
  environment of the second call, and stopping twice is stopping once.
\<close>

theorem start_stop_idempotent:
  "(isRunning w \<longrightarrow> startMonitoring w e = w) \<and>
   (\<not> isRunning w \<longrightarrow> stopMonitoring w = w) \<and>
   startMonitoring (startMonitoring w e) e' = startMonitoring w e \<and>
   stopMonitoring (stopMonitoring w) = stopMonitoring w"
proof (intro conjI impI)
  show "isRunning w \<Longrightarrow> startMonitoring w e = w"
    by (simp add: startMonitoring_def)
  show "\<not> isRunning w \<Longrightarrow> stopMonitoring w = w"
    by (simp add: stopMonitoring_def)
  have "isRunning (startMonitoring w e)"
    by (simp add: isRunning_startMonitoring)
  then show "startMonitoring (startMonitoring w e) e' = startMonitoring w e"
    by (simp add: startMonitoring_def [of "startMonitoring w e"])
  have "\<not> isRunning (stopMonitoring w)"
    by (simp add: isRunning_stopMonitoring)
  then show "stopMonitoring (stopMonitoring w) = stopMonitoring w"
    by (simp add: stopMonitoring_def [of "stopMonitoring w"])
qed

text \<open>
  The sample monitor, stopped, is started (its two files are deleted, timer 7 is set),
  started again with another timer handle, and stopped twice.
\<close>

theorem start_stop_idempotent_witness:
  "startMonitoring (startMonitoring afterFirst (startEnv 7)) (startEnv 8) =
     startMonitoring afterFirst (startEnv 7) \<and>
   reportsDir (startMonitoring afterFirst (startEnv 7)) = [] \<and>
   timers (startMonitoring (startMonitoring afterFirst (startEnv 7)) (startEnv 8)) = [7] \<and>
   stopMonitoring afterFirst = afterFirst \<and>
   stopMonitoring (stopMonitoring (startMonitoring afterFirst (startEnv 7))) =
     stopMonitoring (startMonitoring afterFirst (startEnv 7))"
proof -
  have r: "\<not> isRunning afterFirst"
    by (simp add: afterFirst_def generateEmergencyReport_cases sample_defs)
  have t: "timers afterFirst = []"
    by (simp add: afterFirst_def generateEmergencyReport_cases sample_defs)
  have d: "reportsDir (startMonitoring afterFirst (startEnv 7)) = []"
    using r by (simp add: startMonitoring_def cleanReports_def say_def Let_def startEnv_def afterFirst_fs)
  have m: "timers (startMonitoring afterFirst (startEnv 7)) = [7]"
    using r t by (simp add: startMonitoring_def cleanReports_def say_def Let_def startEnv_def afterFirst_fs)
  show ?thesis
    using start_stop_idempotent [of "startMonitoring afterFirst (startEnv 7)" "startEnv 8" "startEnv 8"]
      start_stop_idempotent [of afterFirst "startEnv 7" "startEnv 8"]
      start_stop_idempotent [of "stopMonitoring (startMonitoring afterFirst (startEnv 7))" "startEnv 8" "startEnv 8"]
      r d m
    by (simp add: isRunning_startMonitoring)
qed


subsection \<open>The fallback rule\<close>

lemma sustained_iff:
  "(length (slice_last 3 es) = 3 \<and> list_all abnormalEntry (slice_last 3 es)) = sustainedAnomaly es"
  by (auto simp add: sustainedAnomaly_def slice_last_def abnormalEntry_def list_all_iff)

lemma suspiciousPartsOf_forced:
  "suspiciousPartsOf rd history =
     map (forcedCritical rd) (map fst (filter (\<lambda>(pid, es). sustainedAnomaly es) history))"
proof (induction history)
  case Nil
  show ?case by (simp add: suspiciousPartsOf_def)
next
  case (Cons a history)
  obtain pid es where a: "a = (pid, es)" by (cases a)
  have "suspiciousPartsOf rd (a # history) =
      (if sustainedAnomaly es then [forcedCritical rd pid] else []) @ suspiciousPartsOf rd history"
    using sustained_iff [of es]
    by (simp add: suspiciousPartsOf_def a Let_def forcedCritical_def split: option.splits)
  then show ?case by (simp add: Cons.IH a)
qed

lemma status_forcedCritical: "status (forcedCritical rd pid) = ''critical''"
  by (simp add: forcedCritical_def split: option.splits)

lemma forced_nonempty:
  "map (forcedCritical rd) (map fst (filter (\<lambda>(pid, es). sustainedAnomaly es) history)) \<noteq> [] \<longleftrightarrow>
   list_ex (\<lambda>(pid, es). sustainedAnomaly es) history"
  by (simp add: list_ex_iff filter_empty_conv)

lemma count_say:
  "count_list (console (say ev w)) FallbackForced =
     count_list (console w) FallbackForced + (if ev = FallbackForced then 1 else 0)"
  by (simp add: say_def)

lemma count_logToSystemLog:
  "count_list (console (logToSystemLog w e rid ps fn crit)) FallbackForced =
     count_list (console w) FallbackForced"
  by (simp add: logToSystemLog_def Let_def say_def)

lemma count_generateEmergencyReport:
  "count_list (console (snd (generateEmergencyReport w e rid rd ps))) FallbackForced =
     count_list (console w) FallbackForced"
  by (simp add: generateEmergencyReport_cases count_logToSystemLog count_say split: option.splits)

lemma isRunning_logToSystemLog: "isRunning (logToSystemLog w e rid ps fn crit) = isRunning w"
  by (simp add: logToSystemLog_def Let_def say_def)

lemma historyBuffer_logToSystemLog:
  "historyBuffer (logToSystemLog w e rid ps fn crit) = historyBuffer w"
  by (simp add: logToSystemLog_def Let_def say_def)

lemma isRunning_generateEmergencyReport:
  "isRunning (snd (generateEmergencyReport w e rid rd ps)) = isRunning w"
  by (simp add: generateEmergencyReport_cases isRunning_logToSystemLog say_def split: option.splits)

lemma historyBuffer_generateEmergencyReport:
  "historyBuffer (snd (generateEmergencyReport w e rid rd ps)) = historyBuffer w"
  by (simp add: generateEmergencyReport_cases historyBuffer_logToSystemLog say_def
      split: option.splits)

lemma not_Threw:
  "list_all (\<lambda>p. readings p \<noteq> None) ps \<Longrightarrow> fst (generateEmergencyReport w e rid rd ps) \<noteq> Threw"
  using content_Some [of ps rd "now e" "isCriticalSet ps"]
  by (auto simp add: generateEmergencyReport_cases split: if_splits)

lemma simulateParts_readings: "list_all (\<lambda>p. readings p \<noteq> None) (simulateParts e)"
  by (simp add: simulateParts_def list_all_iff simulatePart_def split_beta)

lemma filter_readings:
  "list_all (\<lambda>p. readings p \<noteq> None) ps \<Longrightarrow> list_all (\<lambda>p. readings p \<noteq> None) (filter P ps)"
  by (simp add: list_all_iff)


lemma getRobotData_frame:
  "isRunning (snd (getRobotData w e rid)) = isRunning w"
  "console (snd (getRobotData w e rid)) = console w"
  "robotId (fst (getRobotData w e rid)) = rid"
  by (simp_all add: getRobotData_def Let_def)

lemma checkLive_facts:
  "fst (checkLive w e rid) = fst (getRobotData w (simEnv e) rid) \<and>
   fst (snd (checkLive w e rid)) \<noteq> Some Threw \<and>
   isRunning (snd (snd (checkLive w e rid))) = isRunning w \<and>
   historyBuffer (snd (snd (checkLive w e rid))) =
     historyBuffer (snd (getRobotData w (simEnv e) rid)) \<and>
   count_list (console (snd (snd (checkLive w e rid)))) FallbackForced =
     count_list (console w) FallbackForced"
proof -
  obtain rd w1 where g: "getRobotData w (simEnv e) rid = (rd, w1)"
    by (cases "getRobotData w (simEnv e) rid")
  have p: "parts rd = simulateParts (simEnv e)"
    using parts_getRobotData [of w "simEnv e" rid] by (simp add: g)
  have f: "isRunning w1 = isRunning w" "console w1 = console w"
    using getRobotData_frame [of w "simEnv e" rid] by (simp_all add: g)
  have c: "list_all (\<lambda>p. readings p \<noteq> None) (criticalPartsOf (parts rd))"
    unfolding criticalPartsOf_def p by (rule filter_readings) (rule simulateParts_readings)
  have d: "list_all (\<lambda>p. readings p \<noteq> None) (warningPartsOf (parts rd))"
    unfolding warningPartsOf_def p by (rule filter_readings) (rule simulateParts_readings)
  show ?thesis
    using not_Threw [OF c] not_Threw [OF d]
    by (simp add: checkLive_def g Let_def split_beta f say_def
        isRunning_generateEmergencyReport historyBuffer_generateEmergencyReport
        count_generateEmergencyReport)
qed

text \<open>
  The fallback stage of \<open>checkRobotStatus\<close>, unfolded. With the snapshot \<open>rd\<close> of
  the call and the history of the robot after the readings of the snapshot were
  appended: the fallback message is logged once more exactly when the monitor is not
  running, the critical partition of the snapshot is empty and some part id has a
  history of at least three entries whose last three all exceed a threshold. The call
  then goes on to the report generation for the parts synthesized for those part ids,
  in the state \<open>w3\<close> that the report for the live readings left; otherwise it ends in
  \<open>w3\<close>.
\<close>

lemma fallback_rule:
  "let rd = fst (getRobotData w (simEnv e) rid);
       history = (case map_of (historyBuffer (snd (getRobotData w (simEnv e) rid))) rid of
                    None \<Rightarrow> [] | Some h \<Rightarrow> h);
       fires = (\<not> isRunning w \<and> criticalPartsOf (parts rd) = [] \<and>
                list_ex (\<lambda>(pid, es). sustainedAnomaly es) history);
       forced = map (forcedCritical rd) (map fst (filter (\<lambda>(pid, es). sustainedAnomaly es) history));
       w3 = snd (snd (checkLive w e rid))
   in count_list (console (checkRobotStatus w e rid)) FallbackForced =
        count_list (console w) FallbackForced + (if fires then 1 else 0) \<and>
      (fires \<longrightarrow>
         list_all (\<lambda>p. status p = ''critical'') forced \<and> isCriticalSet forced \<and>
         checkRobotStatus w e rid =
           caught rid (generateEmergencyReport (say FallbackForced w3) (fallbackEnv e) rid rd forced)) \<and>
      (\<not> fires \<longrightarrow> checkRobotStatus w e rid = w3)"
proof -
  let ?rd = "fst (getRobotData w (simEnv e) rid)"
  let ?history = "case map_of (historyBuffer (snd (getRobotData w (simEnv e) rid))) rid of
       None \<Rightarrow> [] | Some h \<Rightarrow> h"
  let ?forced =
    "map (forcedCritical ?rd) (map fst (filter (\<lambda>(pid, es). sustainedAnomaly es) ?history))"
  let ?fires = "\<not> isRunning w \<and> criticalPartsOf (parts ?rd) = [] \<and>
    list_ex (\<lambda>(pid, es). sustainedAnomaly es) ?history"
  define w3 where "w3 = snd (snd (checkLive w e rid))"
  let ?call = "caught rid
    (generateEmergencyReport (say FallbackForced w3) (fallbackEnv e) rid ?rd ?forced)"
  define r where "r = fst (snd (checkLive w e rid))"
  have live: "checkLive w e rid = (?rd, r, w3)"
    using checkLive_facts [of w e rid] by (simp add: r_def w3_def prod_eq_iff)
  have facts: "r \<noteq> Some Threw" "isRunning w3 = isRunning w"
    "historyBuffer w3 = historyBuffer (snd (getRobotData w (simEnv e) rid))"
    "count_list (console w3) FallbackForced = count_list (console w) FallbackForced"
    using checkLive_facts [of w e rid] by (simp_all add: r_def w3_def)
  have rid: "robotId ?rd = rid"
    by (simp add: getRobotData_frame)
  have susp: "suspiciousPartsOf ?rd ?history = ?forced"
    by (rule suspiciousPartsOf_forced)
  have ne: "?forced \<noteq> [] \<longleftrightarrow> list_ex (\<lambda>(pid, es). sustainedAnomaly es) ?history"
    by (rule forced_nonempty)
  have "checkRobotStatus w e rid =
      (case (?rd, r, w3) of
        (robotData, r, w3) \<Rightarrow>
          if r = Some Threw then say (DataError rid) w3
          else if \<not> isRunning w3 \<and> length (criticalPartsOf (parts robotData)) = 0 then
            let history = (case map_of (historyBuffer w3) (robotId robotData) of
                             None \<Rightarrow> [] | Some h \<Rightarrow> h);
                suspiciousParts = suspiciousPartsOf robotData history
            in if length suspiciousParts > 0 then
                 caught rid (generateEmergencyReport (say FallbackForced w3) (fallbackEnv e)
                   (robotId robotData) robotData suspiciousParts)
               else w3
          else w3)"
    unfolding checkRobotStatus_def by (simp only: live)
  also have "\<dots> = (if \<not> isRunning w \<and> criticalPartsOf (parts ?rd) = [] then
       if ?forced \<noteq> [] then ?call else w3 else w3)"
    using facts(1) by (simp only: prod.case facts(2,3) rid Let_def susp if_False length_0_conv
        length_greater_0_conv)
  finally have run: "checkRobotStatus w e rid = (if ?fires then ?call else w3)"
    unfolding ne by (cases "isRunning w") simp_all
  have crit: "list_all (\<lambda>p. status p = ''critical'') ?forced"
    by (simp add: list_all_iff status_forcedCritical)
  have sev: "isCriticalSet ?forced" if "?fires"
  proof -
    from that have "?forced \<noteq> []" using ne by blast
    then obtain p ps where "?forced = p # ps" by (cases ?forced) auto
    with crit show ?thesis by (simp add: isCriticalSet_def)
  qed
  have A: "count_list (console (checkRobotStatus w e rid)) FallbackForced =
      count_list (console w) FallbackForced + (if ?fires then 1 else 0)"
    unfolding run
    by (simp add: caught_def count_say count_generateEmergencyReport facts(4))
  have B: "?fires \<longrightarrow> list_all (\<lambda>p. status p = ''critical'') ?forced \<and> isCriticalSet ?forced \<and>
      checkRobotStatus w e rid = ?call"
    using crit sev run by presburger
  have C: "\<not> ?fires \<longrightarrow> checkRobotStatus w e rid = w3"
    using run by presburger
  show ?thesis
    unfolding Let_def using A B C unfolding w3_def by (intro conjI)
qed


lemmas simulate_defs = status_of_def temperature_of_def tempBase_def tempSpike_def js_rem_def
  vibration_of_def vibSpike_def humidity_of_def humidSpike_def operatingHours_of_def longRun_def
  voltage_of_def lowVoltage_def cpuLoad_of_def highCpu_def abnormalNoise_of_def

lemma calm_status: "status_of (203 / 2) = ''normal''"
  by (simp add: simulate_defs)

lemma simulateParts_ids: "p \<in> set (simulateParts e) \<Longrightarrow> id p \<in> fst ` set robotParts"
  by (auto simp add: simulateParts_def simulatePart_def dest!: set_zip_leftD) force

lemma entriesIn_foreign: "pid \<notin> fst ` set robotParts \<Longrightarrow> entriesIn pid (simulateParts e) = []"
  using simulateParts_ids [of _ e] by (auto simp add: entriesIn_def filter_empty_conv)

text \<open>
  The stopped sample monitor, whose history has a part id outside the roster: the
  fallback message is logged once.
\<close>

lemma fallback_fires_on_foreign_key:
  "count_list (console (checkRobotStatus stoppedWithHistory calmCheck ''ROBOT_001''))
     FallbackForced = 1"
proof -
  let ?g = "getRobotData stoppedWithHistory (simEnv calmCheck) ''ROBOT_001''"
  have "\<And>p. p \<in> set (simulateParts (simEnv calmCheck)) \<Longrightarrow> status p = ''normal''"
    by (auto simp add: simulateParts_def status_simulatePart calmCheck_def calm_status)
  then have nocrit: "criticalPartsOf (parts (fst ?g)) = []"
    by (auto simp add: parts_getRobotData criticalPartsOf_def filter_empty_conv)
  have "map_of (case map_of (historyBuffer (snd ?g)) ''ROBOT_001'' of None \<Rightarrow> [] | Some h \<Rightarrow> h)
      ''gripper'' = Some [hotEntry, hotEntry, hotEntry]"
    by (simp add: getRobotData_def Let_def update_conv' map_of_fold_recordPart entriesIn_foreign
        robotParts_def stoppedWithHistory_def)
  then have "(''gripper'', [hotEntry, hotEntry, hotEntry]) \<in>
      set (case map_of (historyBuffer (snd ?g)) ''ROBOT_001'' of None \<Rightarrow> [] | Some h \<Rightarrow> h)"
    by (rule map_of_SomeD)
  moreover have "sustainedAnomaly [hotEntry, hotEntry, hotEntry]"
    by (simp add: sustainedAnomaly_def hotEntry_def)
  ultimately have hist: "list_ex (\<lambda>(pid, es). sustainedAnomaly es)
      (case map_of (historyBuffer (snd ?g)) ''ROBOT_001'' of None \<Rightarrow> [] | Some h \<Rightarrow> h)"
    unfolding list_ex_iff by (intro bexI [of _ "(''gripper'', [hotEntry, hotEntry, hotEntry])"]) simp_all
  have stopped: "\<not> isRunning stoppedWithHistory" "console stoppedWithHistory = []"
    by (simp_all add: stoppedWithHistory_def constructed_def)
  have "count_list (console (checkRobotStatus stoppedWithHistory calmCheck ''ROBOT_001''))
      FallbackForced = count_list (console stoppedWithHistory) FallbackForced + 1"
    using fallback_rule [of stoppedWithHistory calmCheck "''ROBOT_001''", unfolded Let_def,
        THEN conjunct1] nocrit hist stopped(1)
    by simp
  then show ?thesis
    by (simp add: stopped(2))
qed


lemma distinct_recordPart: "distinct (map fst h) \<Longrightarrow> distinct (map fst (recordPart p h))"
  by (simp add: recordPart_def pushHistory_def Let_def distinct_update split: option.splits)

lemma distinct_fold_recordPart:
  "distinct (map fst h) \<Longrightarrow> distinct (map fst (fold recordPart ps h))"
  by (induction ps arbitrary: h) (simp_all add: distinct_recordPart)

lemma abnormal_is_critical:
  "p \<in> set (simulateParts e) \<Longrightarrow> readings p = Some m \<Longrightarrow> abnormalEntry (historyEntry m) \<Longrightarrow>
   status p = ''critical''"
  by (auto simp add: simulateParts_def simulatePart_def abnormalEntry_def historyEntry_def
      status_of_def longRun_def)

lemma entriesIn_members:
  "x \<in> set (entriesIn pid ps) \<Longrightarrow> \<exists>p m. p \<in> set ps \<and> readings p = Some m \<and> x = historyEntry m"
proof -
  assume "x \<in> set (entriesIn pid ps)"
  then obtain p where "p \<in> set ps"
    and "x \<in> set (case readings p of None \<Rightarrow> [] | Some m \<Rightarrow> [historyEntry m])"
    by (auto simp add: entriesIn_def)
  then show ?thesis by (cases "readings p") auto
qed

lemma entriesIn_roster:
  "pid \<in> fst ` set robotParts \<Longrightarrow> entriesIn pid (simulateParts e) \<noteq> []"
  by (auto simp add: robotParts_def simulateParts_def entriesIn_def simulatePart_def upt_rec)

lemma sustained_last:
  "sustainedAnomaly es \<Longrightarrow> es \<noteq> [] \<and> abnormalEntry (last es)"
proof -
  assume s: "sustainedAnomaly es"
  then have n: "es \<noteq> []" by (auto simp add: sustainedAnomaly_def)
  then have "last es \<in> set (drop (length es - 3) es)"
    by (metis diff_less last_drop last_in_set length_greater_0_conv drop_eq_Nil2 not_le
        zero_less_numeral)
  with s n show ?thesis
    by (auto simp add: sustainedAnomaly_def list_all_iff abnormalEntry_def)
qed

lemma last_slice_last: "xs \<noteq> [] \<Longrightarrow> 0 < k \<Longrightarrow> last (slice_last k xs) = last xs"
  by (simp add: slice_last_def last_drop)

text \<open>
  The history that the fallback consults already ends with the reading of the current
  call, and a reading that exceeds one of the four thresholds makes its part critical.
  So when the part ids in the history of the robot are ids of the roster, each once (as
  \<open>getRobotData\<close> leaves them, starting from the constructed state), an empty
  critical partition means that the fallback does not fire.
\<close>

lemma fallback_silent_on_roster_history:
  assumes d: "distinct (map fst h0)"
    and r: "fst ` set h0 \<subseteq> fst ` set robotParts"
    and h0: "h0 = (case map_of (historyBuffer w) rid of None \<Rightarrow> [] | Some h \<Rightarrow> h)"
    and c: "criticalPartsOf (parts (fst (getRobotData w se rid))) = []"
  shows "\<not> list_ex (\<lambda>(pid, es). sustainedAnomaly es)
    (case map_of (historyBuffer (snd (getRobotData w se rid))) rid of None \<Rightarrow> [] | Some h \<Rightarrow> h)"
proof
  let ?ps = "simulateParts se"
  let ?after = "fold recordPart ?ps h0"
  have after: "(case map_of (historyBuffer (snd (getRobotData w se rid))) rid of
      None \<Rightarrow> [] | Some h \<Rightarrow> h) = ?after"
    by (simp add: getRobotData_def Let_def update_conv' h0)
  assume "list_ex (\<lambda>(pid, es). sustainedAnomaly es)
    (case map_of (historyBuffer (snd (getRobotData w se rid))) rid of None \<Rightarrow> [] | Some h \<Rightarrow> h)"
  then obtain pid es where m: "(pid, es) \<in> set ?after" and s: "sustainedAnomaly es"
    unfolding after by (auto simp add: list_ex_iff)
  have "distinct (map fst ?after)"
    using d by (rule distinct_fold_recordPart)
  with m have look: "map_of ?after pid = Some es"
    by simp
  have calm: "\<And>p. p \<in> set ?ps \<Longrightarrow> status p \<noteq> ''critical''"
    using c by (auto simp add: parts_getRobotData criticalPartsOf_def filter_empty_conv)
  show False
  proof (cases "entriesIn pid ?ps = []")
    case True
    then have "map_of h0 pid = Some es"
      using look by (simp add: map_of_fold_recordPart)
    then have "pid \<in> fst ` set h0"
      by (metis map_of_SomeD fst_conv image_eqI)
    then have "pid \<in> fst ` set robotParts" using r by blast
    then show False using True entriesIn_roster by blast
  next
    case False
    let ?old = "case map_of h0 pid of None \<Rightarrow> [] | Some es \<Rightarrow> es"
    have es: "es = slice_last 10 (?old @ entriesIn pid ?ps)"
      using look False by (simp add: map_of_fold_recordPart)
    have "last es = last (entriesIn pid ?ps)"
      using False by (simp add: es last_slice_last)
    then have "last es \<in> set (entriesIn pid ?ps)"
      using False by simp
    then obtain p m' where p: "p \<in> set ?ps" "readings p = Some m'" "last es = historyEntry m'"
      using entriesIn_members by blast
    have "abnormalEntry (last es)"
      using s by (simp add: sustained_last)
    then have "status p = ''critical''"
      using p abnormal_is_critical by metis
    then show False using calm p(1) by blast
  qed
qed


lemma keys_recordPart: "fst ` set (recordPart p h) \<subseteq> insert (id p) (fst ` set h)"
proof (cases "readings p")
  case None
  then show ?thesis by (auto simp add: recordPart_None)
next
  case (Some m)
  then show ?thesis by (simp add: recordPart_Some pushHistory_def Let_def dom_update)
qed

lemma keys_fold_recordPart: "fst ` set (fold recordPart ps h) \<subseteq> fst ` set h \<union> id ` set ps"
proof (induction ps arbitrary: h)
  case Nil
  show ?case by simp
next
  case (Cons p ps)
  show ?case
    using Cons.IH [of "recordPart p h"] keys_recordPart [of p h] by auto
qed

lemma robot_history_same:
  "(case map_of (historyBuffer (snd (getRobotData w e rid))) rid of None \<Rightarrow> [] | Some h \<Rightarrow> h) =
     fold recordPart (simulateParts e)
       (case map_of (historyBuffer w) rid of None \<Rightarrow> [] | Some h \<Rightarrow> h)"
  by (simp add: getRobotData_def Let_def update_conv')

lemma robot_history_other:
  "r \<noteq> rid \<Longrightarrow>
   (case map_of (historyBuffer (snd (getRobotData w e rid))) r of None \<Rightarrow> [] | Some h \<Rightarrow> h) =
     (case map_of (historyBuffer w) r of None \<Rightarrow> [] | Some h \<Rightarrow> h)"
  by (simp add: getRobotData_def Let_def update_conv')

lemma roster_keys_fold:
  assumes "distinct (map fst h)" and "fst ` set h \<subseteq> fst ` set robotParts"
  shows "distinct (map fst (fold recordPart (simulateParts e) h)) \<and>
    fst ` set (fold recordPart (simulateParts e) h) \<subseteq> fst ` set robotParts"
proof
  show "distinct (map fst (fold recordPart (simulateParts e) h))"
    using assms(1) by (rule distinct_fold_recordPart)
  have ids: "id ` set (simulateParts e) \<subseteq> fst ` set robotParts"
  proof (rule image_subsetI)
    fix p
    assume "p \<in> set (simulateParts e)"
    then show "id p \<in> fst ` set robotParts" by (rule simulateParts_ids)
  qed
  have "fst ` set h \<union> id ` set (simulateParts e) \<subseteq> fst ` set robotParts"
    using assms(2) ids by (rule Un_least)
  then show "fst ` set (fold recordPart (simulateParts e) h) \<subseteq> fst ` set robotParts"
    by (rule subset_trans [OF keys_fold_recordPart])
qed

lemma roster_keys_getRobotData:
  assumes "distinct (map fst (case map_of (historyBuffer w) r of None \<Rightarrow> [] | Some h \<Rightarrow> h))"
    and "fst ` set (case map_of (historyBuffer w) r of None \<Rightarrow> [] | Some h \<Rightarrow> h) \<subseteq> fst ` set robotParts"
  shows "distinct (map fst
      (case map_of (historyBuffer (snd (getRobotData w e rid))) r of None \<Rightarrow> [] | Some h \<Rightarrow> h)) \<and>
    fst ` set (case map_of (historyBuffer (snd (getRobotData w e rid))) r of None \<Rightarrow> [] | Some h \<Rightarrow> h)
      \<subseteq> fst ` set robotParts"
proof (cases "r = rid")
  case True
  have "distinct (map fst (case map_of (historyBuffer w) rid of None \<Rightarrow> [] | Some h \<Rightarrow> h))"
    and "fst ` set (case map_of (historyBuffer w) rid of None \<Rightarrow> [] | Some h \<Rightarrow> h) \<subseteq> fst ` set robotParts"
    using assms by (simp_all only: True)
  then have "distinct (map fst (fold recordPart (simulateParts e)
        (case map_of (historyBuffer w) rid of None \<Rightarrow> [] | Some h \<Rightarrow> h))) \<and>
    fst ` set (fold recordPart (simulateParts e)
        (case map_of (historyBuffer w) rid of None \<Rightarrow> [] | Some h \<Rightarrow> h)) \<subseteq> fst ` set robotParts"
    by (rule roster_keys_fold)
  then show ?thesis
    by (simp only: True robot_history_same)
next
  case False
  show ?thesis
    using assms by (simp only: robot_history_other [OF False])
qed


lemma roster_keys_calls:
  assumes "distinct (map fst (case map_of (historyBuffer w) r of None \<Rightarrow> [] | Some h \<Rightarrow> h))"
    and "fst ` set (case map_of (historyBuffer w) r of None \<Rightarrow> [] | Some h \<Rightarrow> h) \<subseteq> fst ` set robotParts"
  shows "distinct (map fst
      (case map_of (historyBuffer (getRobotData_calls w cs)) r of None \<Rightarrow> [] | Some h \<Rightarrow> h)) \<and>
    fst ` set (case map_of (historyBuffer (getRobotData_calls w cs)) r of None \<Rightarrow> [] | Some h \<Rightarrow> h)
      \<subseteq> fst ` set robotParts"
  using assms
proof (induction cs arbitrary: w)
  case Nil
  then show ?case by (simp only: getRobotData_calls.simps)
next
  case (Cons c cs)
  obtain e rid where c: "c = (e, rid)" by (cases c)
  have step: "distinct (map fst
      (case map_of (historyBuffer (snd (getRobotData w e rid))) r of None \<Rightarrow> [] | Some h \<Rightarrow> h)) \<and>
    fst ` set (case map_of (historyBuffer (snd (getRobotData w e rid))) r of None \<Rightarrow> [] | Some h \<Rightarrow> h)
      \<subseteq> fst ` set robotParts"
    using Cons.prems by (rule roster_keys_getRobotData)
  show ?case
    unfolding c getRobotData_calls.simps
    using step by (intro Cons.IH) (rule conjunct1, assumption, rule conjunct2, assumption)
qed

lemma frame_getRobotData:
  "reportsDir (snd (getRobotData w e rid)) = reportsDir w"
  "lastReportTimes (snd (getRobotData w e rid)) = lastReportTimes w"
  by (simp_all add: getRobotData_def Let_def)

lemma frame_calls:
  "isRunning (getRobotData_calls w cs) = isRunning w \<and>
   console (getRobotData_calls w cs) = console w \<and>
   reportsDir (getRobotData_calls w cs) = reportsDir w \<and>
   lastReportTimes (getRobotData_calls w cs) = lastReportTimes w"
proof (induction cs arbitrary: w)
  case Nil
  show ?case by simp
next
  case (Cons c cs)
  obtain e rid where c: "c = (e, rid)" by (cases c)
  show ?case
    by (simp add: c Cons.IH getRobotData_frame frame_getRobotData)
qed


lemma find_foreign:
  "pid \<notin> id ` set ps \<Longrightarrow> find (\<lambda>p. id p = pid) ps = None"
  by (induction ps) auto

lemma entriesIn_empty_ids:
  "entriesIn pid (simulateParts e) = [] \<Longrightarrow> pid \<notin> id ` set (simulateParts e)"
proof
  assume e: "entriesIn pid (simulateParts e) = []" and "pid \<in> id ` set (simulateParts e)"
  then obtain p where p: "p \<in> set (simulateParts e)" "id p = pid" by auto
  obtain m where m: "readings p = Some m"
    using p(1) simulateParts_readings [of e] by (auto simp add: list_all_iff)
  have "historyEntry m \<in> set (entriesIn pid (simulateParts e))"
    using p m by (force simp add: entriesIn_def)
  then show False using e by simp
qed

text \<open>
  When the critical partition is empty, a part id whose history (after the call) shows a
  sustained anomaly is the id of no part of the snapshot.
\<close>

lemma sustained_key_foreign:
  assumes d: "distinct (map fst (case map_of (historyBuffer w) rid of None \<Rightarrow> [] | Some h \<Rightarrow> h))"
    and c: "criticalPartsOf (parts (fst (getRobotData w se rid))) = []"
    and m: "(pid, es) \<in> set (case map_of (historyBuffer (snd (getRobotData w se rid))) rid of
        None \<Rightarrow> [] | Some h \<Rightarrow> h)"
    and s: "sustainedAnomaly es"
  shows "pid \<notin> id ` set (parts (fst (getRobotData w se rid)))"
proof -
  let ?ps = "simulateParts se"
  let ?h0 = "case map_of (historyBuffer w) rid of None \<Rightarrow> [] | Some h \<Rightarrow> h"
  let ?after = "fold recordPart ?ps ?h0"
  have m': "(pid, es) \<in> set ?after"
    using m by (simp only: robot_history_same)
  have "distinct (map fst ?after)"
    using d by (rule distinct_fold_recordPart)
  with m' have look: "map_of ?after pid = Some es"
    by simp
  have calm: "\<And>p. p \<in> set ?ps \<Longrightarrow> status p \<noteq> ''critical''"
    using c by (auto simp add: parts_getRobotData criticalPartsOf_def filter_empty_conv)
  have "entriesIn pid ?ps = []"
  proof (rule ccontr)
    assume ne: "entriesIn pid ?ps \<noteq> []"
    let ?old = "case map_of ?h0 pid of None \<Rightarrow> [] | Some es \<Rightarrow> es"
    have es: "es = slice_last 10 (?old @ entriesIn pid ?ps)"
      using look ne by (simp add: map_of_fold_recordPart)
    have "last es = last (entriesIn pid ?ps)"
      using ne by (simp add: es last_slice_last)
    then have "last es \<in> set (entriesIn pid ?ps)"
      using ne by simp
    then obtain p m' where p: "p \<in> set ?ps" "readings p = Some m'" "last es = historyEntry m'"
      using entriesIn_members by blast
    have "abnormalEntry (last es)"
      using s by (simp add: sustained_last)
    then have "status p = ''critical''"
      using p abnormal_is_critical by metis
    then show False using calm p(1) by blast
  qed
  then show ?thesis
    by (simp only: parts_getRobotData entriesIn_empty_ids not_False_eq_True)
qed


lemma key_of_filter:
  "pid \<in> set (map fst (filter (\<lambda>(pid, es). P es) xs)) \<Longrightarrow> \<exists>es. (pid, es) \<in> set xs \<and> P es"
  by auto

lemma readings_forcedCritical:
  "pid \<notin> id ` set (parts rd) \<Longrightarrow> readings (forcedCritical rd pid) = None"
  by (simp add: forcedCritical_def find_foreign)

lemma unrendered_writes_nothing:
  assumes "\<not> list_all (\<lambda>p. readings p \<noteq> None) ps"
  shows "reportsDir (snd (generateEmergencyReport w e rid rd ps)) = reportsDir w \<and>
    lastReportTimes (snd (generateEmergencyReport w e rid rd ps)) = lastReportTimes w \<and>
    (fst (generateEmergencyReport w e rid rd ps) = Skipped \<or>
     fst (generateEmergencyReport w e rid rd ps) = Threw)"
proof -
  have "generateReportContent rd ps (now e) (isCriticalSet ps) = None"
    using assms by (rule content_None)
  then show ?thesis
    by (simp add: generateEmergencyReport_cases say_def)
qed

text \<open>
  The report generation of the fallback never writes: with an empty critical partition,
  every part it synthesizes is one without readings, and rendering such a part throws.
\<close>

lemma fallback_never_writes:
  assumes d: "distinct (map fst (case map_of (historyBuffer w) rid of None \<Rightarrow> [] | Some h \<Rightarrow> h))"
  shows "reportsDir (checkRobotStatus w e rid) = reportsDir (snd (snd (checkLive w e rid))) \<and>
    lastReportTimes (checkRobotStatus w e rid) = lastReportTimes (snd (snd (checkLive w e rid)))"
proof -
  let ?rd = "fst (getRobotData w (simEnv e) rid)"
  let ?history = "case map_of (historyBuffer (snd (getRobotData w (simEnv e) rid))) rid of
       None \<Rightarrow> [] | Some h \<Rightarrow> h"
  let ?keys = "map fst (filter (\<lambda>(pid, es). sustainedAnomaly es) ?history)"
  let ?forced = "map (forcedCritical ?rd) ?keys"
  let ?fires = "\<not> isRunning w \<and> criticalPartsOf (parts ?rd) = [] \<and>
    list_ex (\<lambda>(pid, es). sustainedAnomaly es) ?history"
  let ?w3 = "snd (snd (checkLive w e rid))"
  note rule = fallback_rule [of w e rid, unfolded Let_def]
  show ?thesis
  proof (cases ?fires)
    case False
    then have "checkRobotStatus w e rid = ?w3"
      using rule by blast
    then show ?thesis by simp
  next
    case True
    then have run: "checkRobotStatus w e rid =
        caught rid (generateEmergencyReport (say FallbackForced ?w3) (fallbackEnv e) rid ?rd ?forced)"
      using rule by blast
    have c: "criticalPartsOf (parts ?rd) = []" using True by simp
    have bare: "readings (forcedCritical ?rd pid) = None" if "pid \<in> set ?keys" for pid
    proof -
      from key_of_filter [OF that]
      obtain es where es: "(pid, es) \<in> set ?history \<and> sustainedAnomaly es"
        by (rule exE)
      have "pid \<notin> id ` set (parts ?rd)"
        using d c conjunct1 [OF es] conjunct2 [OF es] by (rule sustained_key_foreign)
      then show ?thesis by (rule readings_forcedCritical)
    qed
    have "?keys \<noteq> []"
      using True by (simp add: list_ex_iff filter_empty_conv)
    then obtain k ks where ks: "?keys = k # ks" by (cases ?keys) auto
    then have "k \<in> set ?keys" by simp
    then have "readings (forcedCritical ?rd k) = None" by (rule bare)
    then have "\<not> list_all (\<lambda>p. readings p \<noteq> None) ?forced"
      by (simp add: ks)
    then show ?thesis
      using unrendered_writes_nothing [of ?forced "say FallbackForced ?w3" "fallbackEnv e" rid ?rd]
      unfolding run by (auto simp add: caught_def say_def)
  qed
qed


lemma constructed_history:
  "(case map_of (historyBuffer (constructed hasFs dir)) r of None \<Rightarrow> [] | Some h \<Rightarrow> h) = []"
  by (simp add: constructed_def)

text \<open>
  On a state that calls of \<open>getRobotData\<close> have written, starting from the constructed
  monitor, no call of \<open>checkRobotStatus\<close> takes the fallback.
\<close>

lemma fallback_silent_after_calls:
  "count_list (console (checkRobotStatus (getRobotData_calls (constructed hasFs dir) cs) e rid))
     FallbackForced = 0 \<and>
   (criticalPartsOf (parts (fst (getRobotData (getRobotData_calls (constructed hasFs dir) cs)
        (simEnv e) rid))) = [] \<longrightarrow>
    checkRobotStatus (getRobotData_calls (constructed hasFs dir) cs) e rid =
      snd (snd (checkLive (getRobotData_calls (constructed hasFs dir) cs) e rid)))"
proof -
  let ?w = "getRobotData_calls (constructed hasFs dir) cs"
  let ?h0 = "case map_of (historyBuffer ?w) rid of None \<Rightarrow> [] | Some h \<Rightarrow> h"
  have "distinct (map fst (case map_of (historyBuffer (constructed hasFs dir)) rid of
      None \<Rightarrow> [] | Some h \<Rightarrow> h))"
    and "fst ` set (case map_of (historyBuffer (constructed hasFs dir)) rid of
      None \<Rightarrow> [] | Some h \<Rightarrow> h) \<subseteq> fst ` set robotParts"
    by (simp_all only: constructed_history list.map distinct.simps list.set image_empty empty_subsetI)
  then have keys: "distinct (map fst ?h0) \<and> fst ` set ?h0 \<subseteq> fst ` set robotParts"
    by (rule roster_keys_calls)
  have quiet: "\<not> list_ex (\<lambda>(pid, es). sustainedAnomaly es)
      (case map_of (historyBuffer (snd (getRobotData ?w (simEnv e) rid))) rid of
         None \<Rightarrow> [] | Some h \<Rightarrow> h)"
    if "criticalPartsOf (parts (fst (getRobotData ?w (simEnv e) rid))) = []"
    using conjunct1 [OF keys] conjunct2 [OF keys] refl that
    by (rule fallback_silent_on_roster_history)
  have empty: "console ?w = []"
    using frame_calls [of "constructed hasFs dir" cs] by (simp add: constructed_def)
  note rule = fallback_rule [of ?w e rid, unfolded Let_def]
  have "count_list (console (checkRobotStatus ?w e rid)) FallbackForced = 0"
    using conjunct1 [OF rule] quiet by (auto simp add: empty)
  moreover have "checkRobotStatus ?w e rid = snd (snd (checkLive ?w e rid))"
    if "criticalPartsOf (parts (fst (getRobotData ?w (simEnv e) rid))) = []"
    using conjunct2 [OF conjunct2 [OF rule]] quiet [OF that] by blast
  ultimately show ?thesis by blast
qed

lemma checkLive_quiet:
  assumes "criticalPartsOf (parts (fst (getRobotData w (simEnv e) rid))) = []"
    and "warningPartsOf (parts (fst (getRobotData w (simEnv e) rid))) = []"
  shows "snd (snd (checkLive w e rid)) = say (CheckSummary rid 0 0) (snd (getRobotData w (simEnv e) rid))"
  using assms by (simp add: checkLive_def Let_def split_beta)

lemma calm_temperature: "temperature_of (203 / 2) = 73 / 2"
  by (simp add: simulate_defs)

lemma calm_parts:
  "criticalPartsOf (parts (fst (getRobotData w (simEnv calmCheck) rid))) = [] \<and>
   warningPartsOf (parts (fst (getRobotData w (simEnv calmCheck) rid))) = []"
  by (auto simp add: parts_getRobotData criticalPartsOf_def warningPartsOf_def filter_empty_conv
      simulateParts_def simulatePart_def calmCheck_def calm_status calm_temperature)

lemma hot_entries:
  "entriesIn ''head'' (simulateParts hotSim) =
     [historyEntry \<lparr>temperature = temperature_of 40, vibration = vibration_of 40,
        humidity = humidity_of 40, operatingHours = operatingHours_of 40,
        lastUpdate = 1704077000000, voltage = voltage_of 40, cpuLoad = cpuLoad_of 40,
        abnormalNoise = abnormalNoise_of 40\<rparr>]"
  by (simp add: simulateParts_def robotParts_def upt_rec entriesIn_def simulatePart_def hotSim_def)

lemma hot_hours: "operatingHours_of 40 = 41"
  by (simp add: operatingHours_of_def js_rem_def)

text \<open>
  C4, at inputs where it fails. A monitor that was never started has recorded three
  readings of \<open>ROBOT_001\<close> in a row that exceed a threshold (operating hours 41): the
  history of \<open>head\<close> has three entries and its last three all exceed. A check with
  calm draws then finds an empty critical partition, and yet the fallback does not
  fire: the call logs its summary only and writes no report, because the history it
  consults already ends with the calm reading of this call. On the hand-made history
  with a part id outside the roster the fallback does fire, and still no report is
  written and no emission time is recorded.
\<close>

theorem fallback_misses_sustained_anomaly:
  "\<not> isRunning afterThreeHot \<and>
   sustainedAnomaly (historyOf afterThreeHot ''ROBOT_001'' ''head'') \<and>
   criticalPartsOf (parts (fst (getRobotData afterThreeHot (simEnv calmCheck) ''ROBOT_001''))) = [] \<and>
   console (checkRobotStatus afterThreeHot calmCheck ''ROBOT_001'') =
     [CheckSummary ''ROBOT_001'' 0 0] \<and>
   reportsDir (checkRobotStatus afterThreeHot calmCheck ''ROBOT_001'') = [] \<and>
   count_list (console (checkRobotStatus stoppedWithHistory calmCheck ''ROBOT_001''))
     FallbackForced = 1 \<and>
   reportsDir (checkRobotStatus stoppedWithHistory calmCheck ''ROBOT_001'') = [] \<and>
   lastReportTimes (checkRobotStatus stoppedWithHistory calmCheck ''ROBOT_001'') = []"
proof -
  let ?R = "''ROBOT_001''"
  let ?cs = "[(hotSim, ?R), (hotSim, ?R), (hotSim, ?R)]"
  have frame: "isRunning afterThreeHot = False" "console afterThreeHot = []"
    "reportsDir afterThreeHot = []"
    using frame_calls [of "constructed True []" ?cs]
    by (simp_all add: afterThreeHot_def constructed_def)
  have "historyOf afterThreeHot ?R ''head'' = slice_last 10 (appendedFor ?R ''head'' ?cs)"
    unfolding afterThreeHot_def
    using historyOf_calls [of "constructed True []" ?R "''head''" ?cs]
    by (simp add: historyOf_constructed)
  then have sustained: "sustainedAnomaly (historyOf afterThreeHot ?R ''head'')"
    by (simp add: hot_entries slice_last_def sustainedAnomaly_def historyEntry_def hot_hours)
  note calm = calm_parts [of afterThreeHot ?R]
  have run: "checkRobotStatus afterThreeHot calmCheck ?R =
      say (CheckSummary ?R 0 0) (snd (getRobotData afterThreeHot (simEnv calmCheck) ?R))"
    using fallback_silent_after_calls [of True "[]" ?cs calmCheck ?R] calm
      checkLive_quiet [of afterThreeHot calmCheck ?R]
    by (simp add: afterThreeHot_def)
  have a: "console (checkRobotStatus afterThreeHot calmCheck ?R) = [CheckSummary ?R 0 0]"
    by (simp add: run say_def getRobotData_frame frame)
  have b: "reportsDir (checkRobotStatus afterThreeHot calmCheck ?R) = []"
    by (simp add: run say_def frame_getRobotData frame)
  note calm' = calm_parts [of stoppedWithHistory ?R]
  have "distinct (map fst (case map_of (historyBuffer stoppedWithHistory) ?R of
      None \<Rightarrow> [] | Some h \<Rightarrow> h))"
    by (simp add: stoppedWithHistory_def)
  then have "reportsDir (checkRobotStatus stoppedWithHistory calmCheck ?R) =
      reportsDir (snd (snd (checkLive stoppedWithHistory calmCheck ?R))) \<and>
    lastReportTimes (checkRobotStatus stoppedWithHistory calmCheck ?R) =
      lastReportTimes (snd (snd (checkLive stoppedWithHistory calmCheck ?R)))"
    by (rule fallback_never_writes)
  then have c: "reportsDir (checkRobotStatus stoppedWithHistory calmCheck ?R) = []"
    and d: "lastReportTimes (checkRobotStatus stoppedWithHistory calmCheck ?R) = []"
    using calm' checkLive_quiet [of stoppedWithHistory calmCheck ?R]
    by (simp_all add: say_def frame_getRobotData stoppedWithHistory_def constructed_def)
  show ?thesis
    using frame(1) sustained calm a b fallback_fires_on_foreign_key c d by simp
qed


end
